theory Spec2Isabelle
  imports Complex_Main
begin

section \<open>Couette-Poiseuille flow solvers (app.py)\<close>

text \<open>
  The numerical core of \<^verbatim>\<open>app.py\<close>: the closed-form solution, the assembly of the
  finite-difference system, the two Euler integrators and the integer shooting search.
  Python floats are modelled by the reals (the arithmetic of the source without
  rounding), Python integers by \<open>int\<close>, NumPy arrays by lists, and every exception the
  source can raise by a value of \<open>py_error\<close>.
\<close>

subsection \<open>Exceptions and results\<close>

datatype py_error = ZeroDivisionError | ValueError | IndexError | TypeError | LinAlgError

type_synonym vec = "real list"
type_synonym mat = "real list list"

subsection \<open>NumPy arrays as lists\<close>

text \<open>\<^verbatim>\<open>np.zeros(n)\<close>: a negative dimension raises ValueError.\<close>

definition np_zeros :: "int \<Rightarrow> py_error + vec" where
  "np_zeros n = (if n < 0 then Inl ValueError else Inr (replicate (nat n) 0))"

text \<open>\<^verbatim>\<open>np.zeros((n, n))\<close>.\<close>

definition np_zeros2 :: "int \<Rightarrow> py_error + mat" where
  "np_zeros2 n =
     (if n < 0 then Inl ValueError else Inr (replicate (nat n) (replicate (nat n) 0)))"

text \<open>
  An index into an axis of length \<open>n\<close>: a negative index counts from the end, and an
  index outside \<open>[-n, n)\<close> raises IndexError.
\<close>

definition norm_index :: "nat \<Rightarrow> int \<Rightarrow> py_error + nat" where
  "norm_index n i =
     (let j = (if i < 0 then i + int n else i)
      in if 0 \<le> j \<and> j < int n then Inr (nat j) else Inl IndexError)"

text \<open>\<^verbatim>\<open>a[i]\<close> and \<^verbatim>\<open>a[i] = v\<close> on a one-dimensional array.\<close>

definition get1 :: "vec \<Rightarrow> int \<Rightarrow> py_error + real" where
  "get1 a i = (case norm_index (length a) i of Inl e \<Rightarrow> Inl e | Inr k \<Rightarrow> Inr (a ! k))"

definition set1 :: "vec \<Rightarrow> int \<Rightarrow> real \<Rightarrow> py_error + vec" where
  "set1 a i v = (case norm_index (length a) i of Inl e \<Rightarrow> Inl e | Inr k \<Rightarrow> Inr (a[k := v]))"

text \<open>\<^verbatim>\<open>A[i, j] = v\<close> on a two-dimensional array.\<close>

definition set2 :: "mat \<Rightarrow> int \<Rightarrow> int \<Rightarrow> real \<Rightarrow> py_error + mat" where
  "set2 A i j v =
     (case norm_index (length A) i of
        Inl e \<Rightarrow> Inl e
      | Inr r \<Rightarrow>
          (case norm_index (length (A ! r)) j of
             Inl e \<Rightarrow> Inl e
           | Inr c \<Rightarrow> Inr (A[r := (A ! r)[c := v]])))"

text \<open>\<^verbatim>\<open>range(a, b)\<close>: the integers \<open>a, a + 1, \<dots>, b - 1\<close>, none when \<open>b \<le> a\<close>.\<close>

definition py_range :: "int \<Rightarrow> int \<Rightarrow> int list" where
  "py_range a b = map (\<lambda>k. a + int k) [0..<nat (b - a)]"

text \<open>
  A \<^verbatim>\<open>for\<close> loop over a list of indices whose body updates the loop state and may
  raise: the first exception ends the loop.
\<close>

fun for_loop :: "(int \<Rightarrow> 's \<Rightarrow> py_error + 's) \<Rightarrow> int list \<Rightarrow> 's \<Rightarrow> py_error + 's" where
  "for_loop body [] s = Inr s"
| "for_loop body (i # is) s =
     (case body i s of Inl e \<Rightarrow> Inl e | Inr s' \<Rightarrow> for_loop body is s')"

subsection \<open>The analytical solution\<close>

text \<open>\<^verbatim>\<open>analytical_solution(y, P)\<close> at one sample; on an array it acts elementwise.\<close>

definition analytical_solution :: "real \<Rightarrow> real \<Rightarrow> real" where
  "analytical_solution y P = y + (P / 2) * y * (1 - y)"

definition analytical_solution_array :: "vec \<Rightarrow> real \<Rightarrow> vec" where
  "analytical_solution_array ys P = map (\<lambda>y. analytical_solution y P) ys"

subsection \<open>The boundary-value solver\<close>

text \<open>
  \<^verbatim>\<open>np.linspace(start, stop, num)\<close> as NumPy computes it: \<open>num\<close> samples
  \<open>start + k * step\<close> with \<open>step = (stop - start) / (num - 1)\<close>, the last sample
  overwritten by \<open>stop\<close> when \<open>num > 1\<close>; a negative \<open>num\<close> raises ValueError.
\<close>

definition np_linspace :: "real \<Rightarrow> real \<Rightarrow> int \<Rightarrow> py_error + vec" where
  "np_linspace start stop num =
     (if num < 0 then Inl ValueError
      else
        (let n = nat num;
             delta = stop - start;
             y = (if 0 < n - 1
                  then map (\<lambda>k. real k * (delta / real (n - 1)) + start) [0..<n]
                  else map (\<lambda>k. real k * delta + start) [0..<n])
         in Inr (if 1 < n then y[n - 1 := stop] else y)))"

text \<open>The body of the loop of \<^verbatim>\<open>solve_couette_poiseuille\<close> (lines 44 to 47).\<close>

definition interior_row :: "real \<Rightarrow> real \<Rightarrow> int \<Rightarrow> mat \<times> vec \<Rightarrow> py_error + mat \<times> vec" where
  "interior_row P dy i s =
     (case s of (A, b) \<Rightarrow>
        (case set2 A i (i - 1) 1 of Inl e \<Rightarrow> Inl e | Inr A1 \<Rightarrow>
        (case set2 A1 i i (- 2) of Inl e \<Rightarrow> Inl e | Inr A2 \<Rightarrow>
        (case set2 A2 i (i + 1) 1 of Inl e \<Rightarrow> Inl e | Inr A3 \<Rightarrow>
        (case set1 b i (- P * dy\<^sup>2) of Inl e \<Rightarrow> Inl e | Inr b1 \<Rightarrow>
           Inr (A3, b1))))))"

text \<open>
  Lines 39 to 51 of \<^verbatim>\<open>solve_couette_poiseuille\<close>: the grid \<open>y\<close>, the matrix \<open>A\<close>
  and the right-hand side \<open>b\<close> as they stand when \<^verbatim>\<open>np.linalg.solve\<close> is called.
  \<^verbatim>\<open>1.0 / (N - 1)\<close> raises ZeroDivisionError when \<open>N = 1\<close>.
\<close>

definition assemble_system :: "real \<Rightarrow> int \<Rightarrow> py_error + vec \<times> mat \<times> vec" where
  "assemble_system P N =
     (if N - 1 = 0 then Inl ZeroDivisionError
      else
        (let dy = 1 / real_of_int (N - 1) in
        (case np_linspace 0 1 N of Inl e \<Rightarrow> Inl e | Inr y \<Rightarrow>
        (case np_zeros2 N of Inl e \<Rightarrow> Inl e | Inr A0 \<Rightarrow>
        (case np_zeros N of Inl e \<Rightarrow> Inl e | Inr b0 \<Rightarrow>
        (case for_loop (interior_row P dy) (py_range 1 (N - 1)) (A0, b0) of
           Inl e \<Rightarrow> Inl e
         | Inr (A1, b1) \<Rightarrow>
        (case set2 A1 0 0 1 of Inl e \<Rightarrow> Inl e | Inr A2 \<Rightarrow>
        (case set1 b1 0 0 of Inl e \<Rightarrow> Inl e | Inr b2 \<Rightarrow>
        (case set2 A2 (- 1) (- 1) 1 of Inl e \<Rightarrow> Inl e | Inr A3 \<Rightarrow>
        (case set1 b2 (- 1) 1 of Inl e \<Rightarrow> Inl e | Inr b3 \<Rightarrow>
           Inr (y, A3, b3)))))))))))"

text \<open>
  \<^verbatim>\<open>solve_couette_poiseuille(P, N)\<close>. The dense solver \<^verbatim>\<open>np.linalg.solve\<close> belongs
  to NumPy, not to the repository: it is the parameter \<open>linalg_solve\<close>, and the
  theorems below assume of it only what NumPy documents (see \<open>linalg_solve_contract\<close>).
\<close>

definition solve_couette_poiseuille ::
  "(mat \<Rightarrow> vec \<Rightarrow> py_error + vec) \<Rightarrow> real \<Rightarrow> int \<Rightarrow> py_error + vec \<times> vec" where
  "solve_couette_poiseuille linalg_solve P N =
     (case assemble_system P N of
        Inl e \<Rightarrow> Inl e
      | Inr (y, A, b) \<Rightarrow>
          (case linalg_solve A b of Inl e \<Rightarrow> Inl e | Inr u \<Rightarrow> Inr (y, u)))"

text \<open>The product of a matrix (a list of rows) and a vector.\<close>

definition dot :: "vec \<Rightarrow> vec \<Rightarrow> real" where
  "dot r x = sum_list (map2 (*) r x)"

definition mat_vec :: "mat \<Rightarrow> vec \<Rightarrow> vec" where
  "mat_vec A x = map (\<lambda>r. dot r x) A"

text \<open>\<open>u\<close> solves \<open>A u = b\<close>.\<close>

definition solves :: "mat \<Rightarrow> vec \<Rightarrow> vec \<Rightarrow> bool" where
  "solves A b u \<longleftrightarrow> length u = length A \<and> mat_vec A u = b"

text \<open>A square matrix is singular when some nonzero vector is mapped to zero.\<close>

definition singular :: "mat \<Rightarrow> bool" where
  "singular A \<longleftrightarrow>
     (\<exists>x. length x = length A \<and> x \<noteq> replicate (length A) 0 \<and>
          mat_vec A x = replicate (length A) 0)"

text \<open>
  What NumPy documents of \<^verbatim>\<open>np.linalg.solve(A, b)\<close>, at one system: it returns the
  solution of \<open>A x = b\<close>, and raises LinAlgError when \<open>A\<close> is singular.
\<close>

definition linalg_solve_contract :: "(mat \<Rightarrow> vec \<Rightarrow> py_error + vec) \<Rightarrow> mat \<Rightarrow> vec \<Rightarrow> bool" where
  "linalg_solve_contract linalg_solve A b \<longleftrightarrow>
     (if singular A then linalg_solve A b = Inl LinAlgError
      else (\<exists>u. linalg_solve A b = Inr u \<and> solves A b u))"

text \<open>The solver meets its contract on the system that \<open>P\<close> and \<open>N\<close> assemble.\<close>

definition solver_ok :: "(mat \<Rightarrow> vec \<Rightarrow> py_error + vec) \<Rightarrow> real \<Rightarrow> int \<Rightarrow> bool" where
  "solver_ok linalg_solve P N \<longleftrightarrow>
     (case assemble_system P N of
        Inl e \<Rightarrow> True
      | Inr (y, A, b) \<Rightarrow> linalg_solve_contract linalg_solve A b)"

subsection \<open>A reference dense solver\<close>

text \<open>
  Gauss-Jordan elimination with partial pivoting on the rows of \<open>A\<close> extended by \<open>b\<close>.
  It stands for \<^verbatim>\<open>np.linalg.solve\<close> where a theorem about any solver meeting the
  contract is applied to a concrete system. \<open>pivot_index k rows\<close> is the index of the
  first row of largest absolute value in column \<open>k\<close>; a zero pivot raises LinAlgError.
\<close>

fun pivot_index :: "nat \<Rightarrow> real list list \<Rightarrow> nat" where
  "pivot_index k [] = 0"
| "pivot_index k [r] = 0"
| "pivot_index k (r # rs) =
     (let j = pivot_index k rs in if \<bar>r ! k\<bar> < \<bar>(rs ! j) ! k\<bar> then Suc j else 0)"

definition eliminate :: "nat \<Rightarrow> real list \<Rightarrow> real list \<Rightarrow> real list" where
  "eliminate k p r = map2 (\<lambda>a c. a - (r ! k) * c) r p"

fun gauss_jordan :: "nat \<Rightarrow> nat \<Rightarrow> real list list \<Rightarrow> real list list \<Rightarrow> py_error + real list list" where
  "gauss_jordan 0 k fixed rest = Inr fixed"
| "gauss_jordan (Suc m) k fixed rest =
     (if rest = [] then Inl LinAlgError
      else
        (let j = pivot_index k rest; p = rest ! j
         in if p ! k = 0 then Inl LinAlgError
            else
              (let p' = map (\<lambda>v. v / (p ! k)) p
               in gauss_jordan m (Suc k) (map (eliminate k p') fixed @ [p'])
                    (map (eliminate k p') (take j rest @ drop (Suc j) rest)))))"

definition gauss_solve :: "mat \<Rightarrow> vec \<Rightarrow> py_error + vec" where
  "gauss_solve A b =
     (case gauss_jordan (length A) 0 [] (map2 (\<lambda>r v. r @ [v]) A b) of
        Inl e \<Rightarrow> Inl e
      | Inr rows \<Rightarrow> Inr (map last rows))"

subsection \<open>The shooting search\<close>

text \<open>
  Python's \<^verbatim>\<open>round\<close> on a float: to the nearest integer, a tie to the even one.
\<close>

definition py_round :: "real \<Rightarrow> int" where
  "py_round x =
     (let f = \<lfloor>x\<rfloor>; d = x - of_int f
      in if d < 1 / 2 then f else if 1 / 2 < d then f + 1 else if even f then f else f + 1)"

text \<open>
  The loop body shared, word for word, by \<^verbatim>\<open>IVP_Explicit\<close> (lines 63, 64) and
  \<^verbatim>\<open>shooting_method\<close> (lines 88, 89): both updates read the old step.
\<close>

definition explicit_step :: "real \<Rightarrow> real \<Rightarrow> int \<Rightarrow> vec \<times> vec \<Rightarrow> py_error + vec \<times> vec" where
  "explicit_step p h i s =
     (case s of (u1, u2) \<Rightarrow>
        (case get1 u1 i of Inl e \<Rightarrow> Inl e | Inr a \<Rightarrow>
        (case get1 u2 i of Inl e \<Rightarrow> Inl e | Inr c \<Rightarrow>
        (case set1 u1 (i + 1) (a + c * h) of Inl e \<Rightarrow> Inl e | Inr u1' \<Rightarrow>
        (case get1 u2 i of Inl e \<Rightarrow> Inl e | Inr c' \<Rightarrow>
        (case set1 u2 (i + 1) (c' + (- p) * h) of Inl e \<Rightarrow> Inl e | Inr u2' \<Rightarrow>
           Inr (u1', u2')))))))"

text \<open>
  The loop body of \<^verbatim>\<open>IVP_Implicit\<close> (lines 74, 75): \<open>u2[i + 1]\<close> is written first and
  then read by the update of \<open>u1\<close>.
\<close>

definition implicit_step :: "real \<Rightarrow> real \<Rightarrow> int \<Rightarrow> vec \<times> vec \<Rightarrow> py_error + vec \<times> vec" where
  "implicit_step p h i s =
     (case s of (u1, u2) \<Rightarrow>
        (case get1 u2 i of Inl e \<Rightarrow> Inl e | Inr c \<Rightarrow>
        (case set1 u2 (i + 1) (c + (- p) * h) of Inl e \<Rightarrow> Inl e | Inr u2' \<Rightarrow>
        (case get1 u1 i of Inl e \<Rightarrow> Inl e | Inr a \<Rightarrow>
        (case get1 u2' (i + 1) of Inl e \<Rightarrow> Inl e | Inr c' \<Rightarrow>
        (case set1 u1 (i + 1) (a + c' * h) of Inl e \<Rightarrow> Inl e | Inr u1' \<Rightarrow>
           Inr (u1', u2')))))))"

text \<open>\<^verbatim>\<open>shooting_method(u2_initial_guess, p)\<close>, with \<open>h = 0.01\<close>; it returns \<open>u1[-1]\<close>.\<close>

definition shooting_method :: "int \<Rightarrow> real \<Rightarrow> py_error + real" where
  "shooting_method u2_initial_guess p =
     (let h = 1 / 100;
          iteration = py_round (1 / h)
      in
        (case np_zeros iteration of Inl e \<Rightarrow> Inl e | Inr u1 \<Rightarrow>
        (case np_zeros iteration of Inl e \<Rightarrow> Inl e | Inr u2 \<Rightarrow>
        (case set1 u1 0 0 of Inl e \<Rightarrow> Inl e | Inr u1a \<Rightarrow>
        (case set1 u2 0 (of_int u2_initial_guess) of Inl e \<Rightarrow> Inl e | Inr u2a \<Rightarrow>
        (case for_loop (explicit_step p h) (py_range 0 (iteration - 1)) (u1a, u2a) of
           Inl e \<Rightarrow> Inl e
         | Inr (u1b, u2b) \<Rightarrow> get1 u1b (- 1)))))))"

text \<open>A Python float that is a real number or \<^verbatim>\<open>float('inf')\<close>.\<close>

datatype py_float = Finite real | Infinity

fun less_float :: "real \<Rightarrow> py_float \<Rightarrow> bool" where
  "less_float d Infinity = True"
| "less_float d (Finite c) = (d < c)"

text \<open>
  The body of the loop of \<^verbatim>\<open>initial_value\<close> (lines 96 to 100); the state is
  \<open>(closest_u2, closest_diff)\<close>, where \<open>closest_u2\<close> starts as \<^verbatim>\<open>None\<close>.
\<close>

definition initial_value_step ::
  "real \<Rightarrow> int \<Rightarrow> int option \<times> py_float \<Rightarrow> py_error + int option \<times> py_float" where
  "initial_value_step p u2_initial_guess s =
     (case s of (closest_u2, closest_diff) \<Rightarrow>
        (case shooting_method u2_initial_guess p of
           Inl e \<Rightarrow> Inl e
         | Inr final_u1 \<Rightarrow>
             (let diff = \<bar>final_u1 - 1\<bar>
              in if less_float diff closest_diff
                 then Inr (Some u2_initial_guess, Finite diff)
                 else Inr (closest_u2, closest_diff))))"

text \<open>\<^verbatim>\<open>initial_value(p)\<close>; the result \<open>None\<close> is Python's \<^verbatim>\<open>None\<close>.\<close>

definition initial_value :: "real \<Rightarrow> py_error + int option" where
  "initial_value p =
     (case for_loop (initial_value_step p) (py_range 0 100) (None, Infinity) of
        Inl e \<Rightarrow> Inl e
      | Inr (closest_u2, closest_diff) \<Rightarrow> Inr closest_u2)"

subsection \<open>The Euler integrators\<close>

text \<open>
  \<^verbatim>\<open>IVP_Explicit(p, h)\<close>. \<^verbatim>\<open>1/h\<close> raises ZeroDivisionError when \<open>h = 0\<close>; storing
  \<^verbatim>\<open>None\<close> into a float array raises TypeError.
\<close>

definition IVP_Explicit :: "real \<Rightarrow> real \<Rightarrow> py_error + vec \<times> vec" where
  "IVP_Explicit p h =
     (if h = 0 then Inl ZeroDivisionError
      else
        (let iteration = py_round (1 / h) + 1 in
        (case np_zeros iteration of Inl e \<Rightarrow> Inl e | Inr u1 \<Rightarrow>
        (case np_zeros iteration of Inl e \<Rightarrow> Inl e | Inr u2 \<Rightarrow>
        (case set1 u1 0 0 of Inl e \<Rightarrow> Inl e | Inr u1a \<Rightarrow>
        (case initial_value p of Inl e \<Rightarrow> Inl e | Inr None \<Rightarrow> Inl TypeError
         | Inr (Some slope) \<Rightarrow>
        (case set1 u2 0 (of_int slope) of Inl e \<Rightarrow> Inl e | Inr u2a \<Rightarrow>
           for_loop (explicit_step p h) (py_range 0 (iteration - 1)) (u1a, u2a))))))))"

text \<open>\<^verbatim>\<open>IVP_Implicit(p, h)\<close>.\<close>

definition IVP_Implicit :: "real \<Rightarrow> real \<Rightarrow> py_error + vec \<times> vec" where
  "IVP_Implicit p h =
     (if h = 0 then Inl ZeroDivisionError
      else
        (let iteration = py_round (1 / h) + 1 in
        (case np_zeros iteration of Inl e \<Rightarrow> Inl e | Inr u1 \<Rightarrow>
        (case np_zeros iteration of Inl e \<Rightarrow> Inl e | Inr u2 \<Rightarrow>
        (case set1 u1 0 0 of Inl e \<Rightarrow> Inl e | Inr u1a \<Rightarrow>
        (case initial_value p of Inl e \<Rightarrow> Inl e | Inr None \<Rightarrow> Inl TypeError
         | Inr (Some slope) \<Rightarrow>
        (case set1 u2 0 (of_int slope) of Inl e \<Rightarrow> Inl e | Inr u2a \<Rightarrow>
           for_loop (implicit_step p h) (py_range 0 (iteration - 1)) (u1a, u2a))))))))"

subsection \<open>The Jacobian eigenvalues\<close>

text \<open>
  \<^verbatim>\<open>jacobian_eigenvalues()\<close>. \<^verbatim>\<open>np.linalg.eigvals\<close> belongs to NumPy: it is the parameter
  \<open>eigvals\<close>, of which the theorem assumes what NumPy documents (\<open>eigvals_contract\<close>).
\<close>

definition jacobian_eigenvalues :: "(mat \<Rightarrow> complex list) \<Rightarrow> complex list" where
  "jacobian_eigenvalues eigvals = (let A = [[0, 1], [0, 0]] in eigvals A)"

text \<open>
  \<^verbatim>\<open>np.linalg.eigvals\<close> on a two-by-two matrix returns its two eigenvalues, each
  repeated according to its multiplicity: the roots \<open>l1\<close>, \<open>l2\<close> of the characteristic
  polynomial, whose sum is the trace and whose product is the determinant.
\<close>

definition eigvals_contract :: "(mat \<Rightarrow> complex list) \<Rightarrow> mat \<Rightarrow> bool" where
  "eigvals_contract eigvals A \<longleftrightarrow>
     (\<exists>a b c d l1 l2. A = [[a, b], [c, d]] \<and> eigvals A = [l1, l2] \<and>
        l1 + l2 = of_real (a + d) \<and> l1 * l2 = of_real (a * d - b * c))"

text \<open>
  A reference routine for two-by-two matrices, by the quadratic formula; it stands for
  \<^verbatim>\<open>np.linalg.eigvals\<close> where the theorem is applied to a concrete routine.
\<close>

definition eigvals_2x2 :: "mat \<Rightarrow> complex list" where
  "eigvals_2x2 A =
     (case A of
        [[a, b], [c, d]] \<Rightarrow>
          (let tr = of_real (a + d);
               det = of_real (a * d - b * c);
               disc = csqrt (tr\<^sup>2 - 4 * det)
           in [(tr + disc) / 2, (tr - disc) / 2])
      | _ \<Rightarrow> [])"

section \<open>The system of the specification\<close>

text \<open>
  The linear system as the specification words it, for \<open>n\<close> grid points: rows \<open>0\<close> and
  \<open>n - 1\<close> are identity rows, an interior row \<open>r\<close> holds \<open>1, -2, 1\<close> in columns
  \<open>r - 1, r, r + 1\<close>, and every other entry is zero.
\<close>

definition stencil :: "nat \<Rightarrow> nat \<Rightarrow> real" where
  "stencil r c = (if c = r then - 2 else if c + 1 = r \<or> c = r + 1 then 1 else 0)"

definition spec_entry :: "nat \<Rightarrow> nat \<Rightarrow> nat \<Rightarrow> real" where
  "spec_entry n r c =
     (if r = 0 \<or> r = n - 1 then (if c = r then 1 else 0) else stencil r c)"

definition spec_matrix :: "nat \<Rightarrow> mat" where
  "spec_matrix n = map (\<lambda>r. map (spec_entry n r) [0..<n]) [0..<n]"

definition spec_rhs :: "real \<Rightarrow> nat \<Rightarrow> vec" where
  "spec_rhs P n =
     map (\<lambda>r. if r = 0 then 0 else if r = n - 1 then 1 else - P * (1 / real (n - 1))\<^sup>2) [0..<n]"

text \<open>The uniform grid: \<open>n\<close> points \<open>k * dy\<close> with \<open>dy = 1 / (n - 1)\<close>.\<close>

definition spec_grid :: "nat \<Rightarrow> vec" where
  "spec_grid n = map (\<lambda>k. real k * (1 / real (n - 1))) [0..<n]"

text \<open>The arrays \<open>A\<close> and \<open>b\<close> after the loop has filled the rows \<open>1, \<dots>, k\<close>.\<close>

definition loop_matrix :: "nat \<Rightarrow> nat \<Rightarrow> mat" where
  "loop_matrix n k =
     map (\<lambda>r. map (\<lambda>c. if 1 \<le> r \<and> r \<le> k then stencil r c else 0) [0..<n]) [0..<n]"

definition loop_rhs :: "real \<Rightarrow> real \<Rightarrow> nat \<Rightarrow> nat \<Rightarrow> vec" where
  "loop_rhs P dy n k = map (\<lambda>r. if 1 \<le> r \<and> r \<le> k then - P * dy\<^sup>2 else 0) [0..<n]"

subsection \<open>The Euler schemes of the specification\<close>

text \<open>
  One step of each scheme on a state \<open>(u, u')\<close>, as the specification words it: the
  explicit scheme advances \<open>u\<close> with the old \<open>u'\<close>; the implicit-flavoured scheme updates
  \<open>u'\<close> first and advances \<open>u\<close> with the new \<open>u'\<close>.
\<close>

definition explicit_update :: "real \<Rightarrow> real \<Rightarrow> real \<times> real \<Rightarrow> real \<times> real" where
  "explicit_update p h s = (fst s + snd s * h, snd s + (- p) * h)"

definition implicit_update :: "real \<Rightarrow> real \<Rightarrow> real \<times> real \<Rightarrow> real \<times> real" where
  "implicit_update p h s = (fst s + (snd s + (- p) * h) * h, snd s + (- p) * h)"

text \<open>A trajectory: the \<open>M\<close> states reached from \<open>(0, slope)\<close> in \<open>0, \<dots>, M - 1\<close> steps.\<close>

definition trajectory :: "(real \<times> real \<Rightarrow> real \<times> real) \<Rightarrow> real \<Rightarrow> nat \<Rightarrow> (real \<times> real) list" where
  "trajectory F slope M = map (\<lambda>j. (F ^^ j) (0, slope)) [0..<M]"

text \<open>The arrays \<open>u1\<close> and \<open>u2\<close> after the loop has written the entries \<open>1, \<dots>, k\<close>.\<close>

definition partial_u1 :: "(real \<times> real \<Rightarrow> real \<times> real) \<Rightarrow> real \<Rightarrow> nat \<Rightarrow> nat \<Rightarrow> vec" where
  "partial_u1 F slope M k = map (\<lambda>j. if j \<le> k then fst ((F ^^ j) (0, slope)) else 0) [0..<M]"

definition partial_u2 :: "(real \<times> real \<Rightarrow> real \<times> real) \<Rightarrow> real \<Rightarrow> nat \<Rightarrow> nat \<Rightarrow> vec" where
  "partial_u2 F slope M k = map (\<lambda>j. if j \<le> k then snd ((F ^^ j) (0, slope)) else 0) [0..<M]"

section \<open>Loops and array accesses\<close>

lemma norm_index_nonneg: "0 \<le> i \<Longrightarrow> i < int n \<Longrightarrow> norm_index n i = Inr (nat i)"
  by (simp add: norm_index_def)

lemma norm_index_last: "0 < n \<Longrightarrow> norm_index n (- 1) = Inr (n - 1)"
  by (simp add: norm_index_def nat_diff_distrib') 

lemma get1_nonneg: "0 \<le> i \<Longrightarrow> i < int (length a) \<Longrightarrow> get1 a i = Inr (a ! nat i)"
  by (simp add: get1_def norm_index_nonneg)

lemma set1_nonneg: "0 \<le> i \<Longrightarrow> i < int (length a) \<Longrightarrow> set1 a i v = Inr (a[nat i := v])"
  by (simp add: set1_def norm_index_nonneg)

lemma set2_nonneg:
  "0 \<le> i \<Longrightarrow> i < int (length A) \<Longrightarrow> 0 \<le> j \<Longrightarrow> j < int (length (A ! nat i)) \<Longrightarrow>
   set2 A i j v = Inr (A[nat i := (A ! nat i)[nat j := v]])"
  by (simp add: set2_def norm_index_nonneg)

lemma for_loop_append:
  "for_loop body (xs @ ys) s =
     (case for_loop body xs s of Inl e \<Rightarrow> Inl e | Inr s' \<Rightarrow> for_loop body ys s')"
  by (induction xs arbitrary: s) (auto split: sum.splits)

lemma py_range_nat: "py_range a (a + int m) = map (\<lambda>k. a + int k) [0..<m]"
  by (simp add: py_range_def)

lemma for_loop_range_Suc:
  "for_loop body (map (\<lambda>k. a + int k) [0..<Suc m]) s =
     (case for_loop body (map (\<lambda>k. a + int k) [0..<m]) s of
        Inl e \<Rightarrow> Inl e | Inr s' \<Rightarrow> body (a + int m) s')"
  by (simp add: for_loop_append split: sum.splits)

lemma length_loop_matrix: "length (loop_matrix n k) = n"
  by (simp add: loop_matrix_def)

lemma length_loop_matrix_row: "r < n \<Longrightarrow> length (loop_matrix n k ! r) = n"
  by (simp add: loop_matrix_def)

lemma length_loop_rhs: "length (loop_rhs P dy n k) = n"
  by (simp add: loop_rhs_def)

lemma interior_row_step:
  assumes "Suc (Suc k) < n"
  shows "interior_row P dy (1 + int k) (loop_matrix n k, loop_rhs P dy n k) =
           Inr (loop_matrix n (Suc k), loop_rhs P dy n (Suc k))"
proof -
  let ?i = "1 + int k"
  let ?A = "loop_matrix n k"
  let ?A1 = "?A[Suc k := (?A ! Suc k)[k := 1]]"
  let ?A2 = "?A1[Suc k := (?A1 ! Suc k)[Suc k := - 2]]"
  let ?A3 = "?A2[Suc k := (?A2 ! Suc k)[Suc (Suc k) := 1]]"
  have n: "nat ?i = Suc k" "nat (?i - 1) = k" "nat (?i + 1) = Suc (Suc k)"
    "nat (2 + int k) = Suc (Suc k)"
    by simp_all
  have s1: "set2 ?A ?i (?i - 1) 1 = Inr ?A1"
    using assms set2_nonneg [of ?i ?A "?i - 1" 1]
    by (simp add: length_loop_matrix length_loop_matrix_row n)
  have s2: "set2 ?A1 ?i ?i (- 2) = Inr ?A2"
    using assms set2_nonneg [of ?i ?A1 ?i "- 2"]
    by (simp add: length_loop_matrix length_loop_matrix_row n)
  have s3: "set2 ?A2 ?i (?i + 1) 1 = Inr ?A3"
    using assms set2_nonneg [of ?i ?A2 "?i + 1" 1]
    by (simp add: length_loop_matrix length_loop_matrix_row n)
  have s4: "set1 (loop_rhs P dy n k) ?i (- P * dy\<^sup>2) = Inr ((loop_rhs P dy n k)[Suc k := - P * dy\<^sup>2])"
    using assms set1_nonneg [of ?i "loop_rhs P dy n k" "- P * dy\<^sup>2"]
    by (simp add: length_loop_rhs n)
  have A: "?A3 = loop_matrix n (Suc k)"
    using assms
    by (auto simp: list_eq_iff_nth_eq nth_list_update loop_matrix_def stencil_def)
  have b: "(loop_rhs P dy n k)[Suc k := - P * dy\<^sup>2] = loop_rhs P dy n (Suc k)"
    using assms
    by (auto simp: list_eq_iff_nth_eq nth_list_update loop_rhs_def)
  show ?thesis
    unfolding interior_row_def
    by (simp only: prod.case s1 s2 s3 s4 sum.case A b)
qed

lemma interior_loop:
  "Suc k < n \<Longrightarrow>
   for_loop (interior_row P dy) (map (\<lambda>j. 1 + int j) [0..<k]) (loop_matrix n 0, loop_rhs P dy n 0) =
     Inr (loop_matrix n k, loop_rhs P dy n k)"
proof (induction k)
  case 0
  show ?case by simp
next
  case (Suc k)
  then have "for_loop (interior_row P dy) (map (\<lambda>j. 1 + int j) [0..<k])
                (loop_matrix n 0, loop_rhs P dy n 0) = Inr (loop_matrix n k, loop_rhs P dy n k)"
    by simp
  then show ?case
    using Suc.prems interior_row_step [of k n P dy]
    by (simp only: for_loop_range_Suc sum.case)
qed


lemma np_linspace_unit: "2 \<le> N \<Longrightarrow> np_linspace 0 1 N = Inr (spec_grid (nat N))"
  by (auto simp: np_linspace_def spec_grid_def Let_def list_eq_iff_nth_eq nth_list_update)

lemma np_zeros2_loop: "0 \<le> N \<Longrightarrow> np_zeros2 N = Inr (loop_matrix (nat N) 0)"
  by (auto simp: np_zeros2_def loop_matrix_def list_eq_iff_nth_eq)

lemma np_zeros_loop: "0 \<le> N \<Longrightarrow> np_zeros N = Inr (loop_rhs P dy (nat N) 0)"
  by (auto simp: np_zeros_def loop_rhs_def list_eq_iff_nth_eq)

lemma py_range_interior: "2 \<le> N \<Longrightarrow> py_range 1 (N - 1) = map (\<lambda>j. 1 + int j) [0..<nat N - 2]"
  by (simp add: py_range_def nat_diff_distrib')

lemma set2_last:
  "0 < length A \<Longrightarrow> 0 < length (A ! (length A - 1)) \<Longrightarrow>
   set2 A (- 1) (- 1) v =
     Inr (A[length A - 1 := (A ! (length A - 1))[length (A ! (length A - 1)) - 1 := v]])"
  by (simp add: set2_def norm_index_last)

lemma set1_last: "0 < length a \<Longrightarrow> set1 a (- 1) v = Inr (a[length a - 1 := v])"
  by (simp add: set1_def norm_index_last)

lemma assemble_system_eq:
  assumes "2 \<le> N"
  shows "assemble_system P N = Inr (spec_grid (nat N), spec_matrix (nat N), spec_rhs P (nat N))"
proof -
  define n where "n = nat N"
  define dy where "dy = 1 / real_of_int (N - 1)"
  have n: "2 \<le> n" using assms by (simp add: n_def)
  have "N = int n" using assms by (simp add: n_def)
  then have dy: "dy = 1 / real (n - 1)" using n by (simp add: dy_def of_nat_diff)
  let ?A1 = "loop_matrix n (n - 2)"
  let ?b1 = "loop_rhs P dy n (n - 2)"
  let ?A2 = "?A1[0 := (?A1 ! 0)[0 := 1]]"
  let ?b2 = "?b1[0 := 0]"
  let ?A3 = "?A2[n - 1 := (?A2 ! (n - 1))[n - 1 := 1]]"
  let ?b3 = "?b2[n - 1 := 1]"
  have loop: "for_loop (interior_row P dy) (py_range 1 (N - 1)) (loop_matrix n 0, loop_rhs P dy n 0)
                = Inr (?A1, ?b1)"
  proof -
    have pr: "py_range 1 (N - 1) = map (\<lambda>j. 1 + int j) [0..<n - 2]"
      using assms by (simp add: py_range_interior n_def)
    have "Suc (n - 2) < n" using n(1) by simp
    then show ?thesis
      using interior_loop [of "n - 2" n P dy] by (simp only: pr)
  qed
  have s1: "set2 ?A1 0 0 1 = Inr ?A2"
    using n set2_nonneg [of 0 ?A1 0 1]
    by (simp add: length_loop_matrix length_loop_matrix_row)
  have s2: "set1 ?b1 0 0 = Inr ?b2"
    using n set1_nonneg [of 0 ?b1 0] by (simp add: length_loop_rhs)
  have s3: "set2 ?A2 (- 1) (- 1) 1 = Inr ?A3"
    using n set2_last [of ?A2 1]
    by (simp add: length_loop_matrix length_loop_matrix_row nth_list_update)
  have s4: "set1 ?b2 (- 1) 1 = Inr ?b3"
    using n set1_last [of ?b2 1] by (simp add: length_loop_rhs)
  have A: "?A3 = spec_matrix n"
    using n
    by (auto simp: list_eq_iff_nth_eq nth_list_update loop_matrix_def spec_matrix_def
        spec_entry_def)
  have b: "?b3 = spec_rhs P n"
    using n
    by (auto simp: list_eq_iff_nth_eq nth_list_update loop_rhs_def spec_rhs_def dy)
  have N1: "N - 1 \<noteq> 0" using assms by simp
  have z2: "np_zeros2 N = Inr (loop_matrix n 0)"
    using assms by (simp add: np_zeros2_loop n_def)
  have z1: "np_zeros N = Inr (loop_rhs P dy n 0)"
    using assms by (simp add: np_zeros_loop n_def)
  have g: "np_linspace 0 1 N = Inr (spec_grid n)"
    using assms by (simp add: np_linspace_unit n_def)
  show ?thesis
    unfolding assemble_system_def Let_def dy_def [symmetric] n_def [symmetric]
    by (simp only: N1 if_False g z2 z1 loop s1 s2 s3 s4 sum.case prod.case A b)
qed

section \<open>The finite-difference matrix\<close>

lemma dot_map_upt:
  "length x = n \<Longrightarrow> dot (map f [0..<n]) x = (\<Sum>c<n. f c * x ! c)"
proof -
  assume l: "length x = n"
  have "map2 (*) (map f [0..<n]) x = map (\<lambda>c. f c * x ! c) [0..<n]"
    using l by (auto simp: list_eq_iff_nth_eq)
  then show ?thesis
    by (simp add: dot_def sum_list_sum_nth atLeast0LessThan)
qed

lemma sum_stencil:
  assumes "0 < r" "Suc r < n"
  shows "(\<Sum>c<n. stencil r c * f c) = f (r - 1) - 2 * f r + f (Suc r)"
proof -
  have "(\<Sum>c<n. stencil r c * f c) =
        (\<Sum>c<n. (if c = r - 1 then f c else 0) + (if c = r then - 2 * f c else 0)
                 + (if c = Suc r then f c else 0))"
    using assms by (intro sum.cong) (auto simp: stencil_def)
  also have "\<dots> = f (r - 1) - 2 * f r + f (Suc r)"
  proof -
    have "r - 1 < n" "r < n" using assms by simp_all
    then show ?thesis using assms by (simp add: sum.distrib)
  qed
  finally show ?thesis .
qed

lemma sum_unit_row:
  "r < (n::nat) \<Longrightarrow> (\<Sum>c<n. (if c = r then 1 else 0) * f c) = (f r :: real)"
proof -
  assume r: "r < n"
  have "(\<Sum>c<n. (if c = r then 1 else 0) * f c) = (\<Sum>c<n. if c = r then f c else 0)"
    by (intro sum.cong) auto
  also have "\<dots> = f r" using r by simp
  finally show ?thesis .
qed

lemma mat_vec_spec_nth:
  assumes "2 \<le> n" "length x = n" "r < n"
  shows "mat_vec (spec_matrix n) x ! r =
           (if r = 0 \<or> r = n - 1 then x ! r else x ! (r - 1) - 2 * x ! r + x ! Suc r)"
proof -
  have "mat_vec (spec_matrix n) x ! r = dot (map (spec_entry n r) [0..<n]) x"
    using assms(3) by (simp add: mat_vec_def spec_matrix_def)
  also have "\<dots> = (\<Sum>c<n. spec_entry n r c * x ! c)"
    by (rule dot_map_upt [OF assms(2)])
  finally have row: "mat_vec (spec_matrix n) x ! r = (\<Sum>c<n. spec_entry n r c * x ! c)" .
  show ?thesis
  proof (cases "r = 0 \<or> r = n - 1")
    case True
    then have "(\<Sum>c<n. spec_entry n r c * x ! c) = (\<Sum>c<n. (if c = r then 1 else 0) * x ! c)"
      by (intro sum.cong) (auto simp: spec_entry_def)
    also have "\<dots> = x ! r"
      by (rule sum_unit_row [OF assms(3)])
    finally show ?thesis using True row by simp
  next
    case False
    then have r: "0 < r" "Suc r < n" using assms by auto
    have "(\<Sum>c<n. spec_entry n r c * x ! c) = (\<Sum>c<n. stencil r c * x ! c)"
      using False by (intro sum.cong) (auto simp: spec_entry_def)
    also have "\<dots> = x ! (r - 1) - 2 * x ! r + x ! Suc r"
      by (rule sum_stencil [OF r])
    finally show ?thesis using False row by simp
  qed
qed

lemma length_mat_vec_spec: "length (mat_vec (spec_matrix n) x) = n"
  by (simp add: mat_vec_def spec_matrix_def)

text \<open>The homogeneous difference equation with zero boundary values has only the zero solution.\<close>

lemma homogeneous_zero:
  fixes d :: "nat \<Rightarrow> real"
  assumes n: "2 \<le> n"
    and d0: "d 0 = 0"
    and dn: "d (n - 1) = 0"
    and rec: "\<And>r. 0 < r \<Longrightarrow> Suc r < n \<Longrightarrow> d (r - 1) - 2 * d r + d (Suc r) = 0"
    and r: "r < n"
  shows "d r = 0"
proof -
  have lin: "k < n \<Longrightarrow> d k = real k * d 1" for k
  proof (induction k rule: less_induct)
    case (less k)
    show ?case
    proof (cases k)
      case 0
      then show ?thesis by (simp add: d0)
    next
      case (Suc j)
      show ?thesis
      proof (cases j)
        case 0
        with Suc show ?thesis by simp
      next
        case (Suc i)
        have k: "k = Suc (Suc i)" using \<open>k = Suc j\<close> Suc by simp
        have "i < k" "i < n" "Suc i < k" "Suc i < n" using less.prems k by simp_all
        then have a: "d i = real i * d 1" and b: "d (Suc i) = real (Suc i) * d 1"
          using less.IH [of i] less.IH [of "Suc i"] by blast+
        have "d (Suc i - 1) - 2 * d (Suc i) + d (Suc (Suc i)) = 0"
          using rec [of "Suc i"] less.prems k by simp
        then have "d (Suc (Suc i)) = 2 * d (Suc i) - d i" by simp
        also have "\<dots> = real (Suc (Suc i)) * d 1"
          by (simp only: a b) (simp add: algebra_simps)
        finally show ?thesis by (simp only: k)
      qed
    qed
  qed
  have "real (n - 1) * d 1 = 0" using lin [of "n - 1"] n dn by simp
  then have "d 1 = 0" using n by simp
  then show ?thesis using lin [OF r] by simp
qed

lemma spec_matrix_unique:
  assumes n: "2 \<le> n"
    and u: "length u = n" and v: "length v = n"
    and eq: "mat_vec (spec_matrix n) u = mat_vec (spec_matrix n) v"
  shows "u = v"
proof (rule nth_equalityI)
  show "length u = length v" using u v by simp
next
  fix r assume "r < length u"
  then have r: "r < n" using u by simp
  define d where "d k = u ! k - v ! k" for k
  have row: "k < n \<Longrightarrow> mat_vec (spec_matrix n) u ! k = mat_vec (spec_matrix n) v ! k" for k
    using eq by simp
  have "d 0 = 0"
    using row [of 0] n mat_vec_spec_nth [OF n u, of 0] mat_vec_spec_nth [OF n v, of 0]
    by (simp add: d_def)
  moreover have "d (n - 1) = 0"
    using row [of "n - 1"] n mat_vec_spec_nth [OF n u, of "n - 1"]
      mat_vec_spec_nth [OF n v, of "n - 1"]
    by (simp add: d_def)
  moreover have "d (k - 1) - 2 * d k + d (Suc k) = 0" if "0 < k" "Suc k < n" for k
  proof -
    have "k < n" "k \<noteq> 0" "k \<noteq> n - 1" using that by simp_all
    then show ?thesis
      using row [of k] mat_vec_spec_nth [OF n u, of k] mat_vec_spec_nth [OF n v, of k]
      by (simp add: d_def)
  qed
  ultimately have "d r = 0"
    using homogeneous_zero [of n d r] n r by blast
  then show "u ! r = v ! r" by (simp add: d_def)
qed

lemma spec_matrix_nonsingular: "2 \<le> n \<Longrightarrow> \<not> singular (spec_matrix n)"
proof
  assume n: "2 \<le> n" and "singular (spec_matrix n)"
  then obtain x where x: "length x = n" "x \<noteq> replicate n 0"
      "mat_vec (spec_matrix n) x = replicate n 0"
    by (auto simp: singular_def spec_matrix_def)
  have z: "mat_vec (spec_matrix n) (replicate n 0) = replicate n 0"
  proof (rule nth_equalityI)
    show "length (mat_vec (spec_matrix n) (replicate n 0)) = length (replicate n (0::real))"
      by (simp add: length_mat_vec_spec)
  next
    fix r assume "r < length (mat_vec (spec_matrix n) (replicate n 0))"
    then have r: "r < n" by (simp add: length_mat_vec_spec)
    have "Suc r < n" if "r \<noteq> n - 1" using that r by simp
    then show "mat_vec (spec_matrix n) (replicate n 0) ! r = replicate n 0 ! r"
      using r mat_vec_spec_nth [OF n, of "replicate n 0" r] by simp
  qed
  have "x = replicate n 0"
    using spec_matrix_unique [OF n x(1), of "replicate n 0"] x(3) z by simp
  with x(2) show False by simp
qed

lemma length_spec_grid: "length (spec_grid n) = n"
  by (simp add: spec_grid_def)

lemma nth_spec_grid: "k < n \<Longrightarrow> spec_grid n ! k = real k * (1 / real (n - 1))"
  by (simp add: spec_grid_def)

lemma nth_exact:
  "k < n \<Longrightarrow> analytical_solution_array (spec_grid n) P ! k =
     analytical_solution (real k * (1 / real (n - 1))) P"
  by (simp add: analytical_solution_array_def spec_grid_def)

lemma second_difference:
  "analytical_solution (real j * d) P - 2 * analytical_solution (real (Suc j) * d) P
     + analytical_solution (real (Suc (Suc j)) * d) P = - P * d\<^sup>2"
  by (simp add: analytical_solution_def power2_eq_square field_simps)

lemma exact_solves:
  assumes n: "2 \<le> n"
  shows "solves (spec_matrix n) (spec_rhs P n) (analytical_solution_array (spec_grid n) P)"
proof -
  let ?u = "analytical_solution_array (spec_grid n) P"
  have len: "length ?u = n"
    by (simp add: analytical_solution_array_def spec_grid_def)
  have one: "real (n - 1) * (1 / real (n - 1)) = 1" using n by simp
  have "mat_vec (spec_matrix n) ?u = spec_rhs P n"
  proof (rule nth_equalityI)
    show "length (mat_vec (spec_matrix n) ?u) = length (spec_rhs P n)"
      by (simp add: length_mat_vec_spec spec_rhs_def)
  next
    fix r assume "r < length (mat_vec (spec_matrix n) ?u)"
    then have r: "r < n" by (simp add: length_mat_vec_spec)
    have rhs: "spec_rhs P n ! r =
        (if r = 0 then 0 else if r = n - 1 then 1 else - P * (1 / real (n - 1))\<^sup>2)"
      using r by (simp add: spec_rhs_def)
    consider "r = 0" | "r = n - 1" "r \<noteq> 0" | "r \<noteq> 0" "r \<noteq> n - 1" by blast
    then show "mat_vec (spec_matrix n) ?u ! r = spec_rhs P n ! r"
    proof cases
      case 1
      then show ?thesis
        using r mat_vec_spec_nth [OF n len r] rhs
        by (simp add: nth_exact analytical_solution_def)
    next
      case 2
      have "?u ! (n - 1) = 1"
        using n by (simp add: nth_exact one) (simp add: analytical_solution_def)
      then show ?thesis
        using 2 mat_vec_spec_nth [OF n len r] rhs by simp
    next
      case 3
      then obtain j where j: "r = Suc j" by (cases r) auto
      have "Suc (Suc j) < n" using 3 r j by simp
      then have "mat_vec (spec_matrix n) ?u ! r =
          analytical_solution (real j * (1 / real (n - 1))) P
          - 2 * analytical_solution (real (Suc j) * (1 / real (n - 1))) P
          + analytical_solution (real (Suc (Suc j)) * (1 / real (n - 1))) P"
        using 3 mat_vec_spec_nth [OF n len r]
        by (simp add: j nth_exact del: of_nat_Suc)
      then show ?thesis
        using 3 rhs by (simp only: second_difference) simp
    qed
  qed
  then show ?thesis by (simp add: solves_def len spec_matrix_def)
qed

lemma solves_spec_unique:
  assumes "2 \<le> n" "solves (spec_matrix n) b u" "solves (spec_matrix n) b v"
  shows "u = v"
proof -
  have "length u = n" "length v = n"
    using assms(2,3) by (simp_all add: solves_def spec_matrix_def)
  moreover have "mat_vec (spec_matrix n) u = mat_vec (spec_matrix n) v"
    using assms(2,3) by (simp add: solves_def)
  ultimately show ?thesis
    using spec_matrix_unique [OF assms(1)] by blast
qed

lemma solve_exact:
  assumes N: "2 \<le> N" and ok: "solver_ok linalg_solve P N"
  shows "solve_couette_poiseuille linalg_solve P N =
           Inr (spec_grid (nat N), analytical_solution_array (spec_grid (nat N)) P)"
proof -
  let ?n = "nat N"
  have n: "2 \<le> ?n" using N by simp
  have asm: "assemble_system P N = Inr (spec_grid ?n, spec_matrix ?n, spec_rhs P ?n)"
    by (rule assemble_system_eq [OF N])
  have "linalg_solve_contract linalg_solve (spec_matrix ?n) (spec_rhs P ?n)"
    using ok by (simp add: solver_ok_def asm)
  then obtain u where u: "linalg_solve (spec_matrix ?n) (spec_rhs P ?n) = Inr u"
      "solves (spec_matrix ?n) (spec_rhs P ?n) u"
    using spec_matrix_nonsingular [OF n] by (auto simp: linalg_solve_contract_def)
  have "u = analytical_solution_array (spec_grid ?n) P"
    by (rule solves_spec_unique [OF n u(2) exact_solves [OF n]])
  then show ?thesis
    by (simp add: solve_couette_poiseuille_def asm u(1))
qed

lemma assemble_system_small:
  "N < 2 \<Longrightarrow> assemble_system P N =
     Inl (if N = 1 then ZeroDivisionError else if N = 0 then IndexError else ValueError)"
proof -
  assume N: "N < 2"
  consider "N = 1" | "N = 0" | "N < 0" using N by linarith
  then show ?thesis
  proof cases
    case 1
    then show ?thesis by (simp add: assemble_system_def)
  next
    case 2
    then show ?thesis
      by (simp add: assemble_system_def np_linspace_def np_zeros2_def np_zeros_def py_range_def
          set2_def norm_index_def)
  next
    case 3
    then show ?thesis by (simp add: assemble_system_def np_linspace_def)
  qed
qed

lemma gauss_ok_5: "solver_ok gauss_solve 2 5"
proof -
  have "assemble_system 2 5 = Inr (spec_grid 5, spec_matrix 5, spec_rhs 2 5)"
    using assemble_system_eq [of 5 2] by simp
  moreover have "gauss_solve (spec_matrix 5) (spec_rhs 2 5) = Inr [0, 7/16, 3/4, 15/16, 1]"
    by code_simp
  moreover have "solves (spec_matrix 5) (spec_rhs 2 5) [0, 7/16, 3/4, 15/16, 1]"
    by code_simp
  moreover have "\<not> singular (spec_matrix 5)"
    by (rule spec_matrix_nonsingular) simp
  ultimately show ?thesis
    by (simp add: solver_ok_def linalg_solve_contract_def)
qed

lemma solve_returns:
  assumes N: "2 \<le> N" and ok: "solver_ok linalg_solve P N"
  shows "\<exists>u. solve_couette_poiseuille linalg_solve P N = Inr (spec_grid (nat N), u) \<and>
             solves (spec_matrix (nat N)) (spec_rhs P (nat N)) u"
  using solve_exact [OF N ok] exact_solves [of "nat N" P] N by simp

lemma solve_small:
  "N < 2 \<Longrightarrow> solve_couette_poiseuille linalg_solve P N =
     Inl (if N = 1 then ZeroDivisionError else if N = 0 then IndexError else ValueError)"
  by (simp only: solve_couette_poiseuille_def assemble_system_small sum.case)

lemma spec_system_5:
  "spec_matrix 5 = [[1, 0, 0, 0, 0], [1, - 2, 1, 0, 0], [0, 1, - 2, 1, 0], [0, 0, 1, - 2, 1],
                    [0, 0, 0, 0, 1]]"
  "spec_rhs 2 5 = [0, - 0.125, - 0.125, - 0.125, 1]"
  "spec_grid 5 = [0, 0.25, 0.5, 0.75, 1]"
  by code_simp+

section \<open>The Euler loops and the shooting search\<close>

lemma py_range_zero: "py_range 0 (int m) = map int [0..<m]"
  by (simp add: py_range_def)

lemma for_loop_upt_Suc:
  "for_loop body (map int [0..<Suc m]) s =
     (case for_loop body (map int [0..<m]) s of Inl e \<Rightarrow> Inl e | Inr s' \<Rightarrow> body (int m) s')"
  by (simp add: for_loop_append split: sum.splits)

lemma length_partial: "length (partial_u1 F s M k) = M" "length (partial_u2 F s M k) = M"
  by (simp_all add: partial_u1_def partial_u2_def)

lemma nth_partial:
  "j < M \<Longrightarrow> partial_u1 F s M k ! j = (if j \<le> k then fst ((F ^^ j) (0, s)) else 0)"
  "j < M \<Longrightarrow> partial_u2 F s M k ! j = (if j \<le> k then snd ((F ^^ j) (0, s)) else 0)"
  by (simp_all add: partial_u1_def partial_u2_def)

lemma partial_update:
  assumes "Suc k < M"
  shows "(partial_u1 F s M k)[Suc k := fst ((F ^^ Suc k) (0, s))] = partial_u1 F s M (Suc k)"
    and "(partial_u2 F s M k)[Suc k := snd ((F ^^ Suc k) (0, s))] = partial_u2 F s M (Suc k)"
  using assms
  by (auto simp: list_eq_iff_nth_eq nth_list_update partial_u1_def partial_u2_def
      simp del: funpow.simps)

lemma explicit_step_partial:
  assumes "Suc k < M"
  shows "explicit_step p h (int k)
           (partial_u1 (explicit_update p h) s M k, partial_u2 (explicit_update p h) s M k) =
         Inr (partial_u1 (explicit_update p h) s M (Suc k),
              partial_u2 (explicit_update p h) s M (Suc k))"
proof -
  let ?F = "explicit_update p h"
  let ?u1 = "partial_u1 ?F s M k" and ?u2 = "partial_u2 ?F s M k"
  let ?x = "(?F ^^ k) (0, s)"
  have k: "k < M" using assms by simp
  have g1: "get1 ?u1 (int k) = Inr (fst ?x)"
    using k get1_nonneg [of "int k" ?u1] by (simp add: length_partial nth_partial)
  have g2: "get1 ?u2 (int k) = Inr (snd ?x)"
    using k get1_nonneg [of "int k" ?u2] by (simp add: length_partial nth_partial)
  have v: "fst ?x + snd ?x * h = fst ((?F ^^ Suc k) (0, s))"
      "snd ?x + (- p) * h = snd ((?F ^^ Suc k) (0, s))"
    by (simp_all add: explicit_update_def)
  have s1: "set1 ?u1 (int k + 1) (fst ?x + snd ?x * h) = Inr (partial_u1 ?F s M (Suc k))"
    using assms set1_nonneg [of "int k + 1" ?u1 "fst ?x + snd ?x * h"]
      partial_update(1) [OF assms, of ?F s]
    by (simp only: v) (simp add: length_partial nat_add_distrib)
  have s2: "set1 ?u2 (int k + 1) (snd ?x + (- p) * h) = Inr (partial_u2 ?F s M (Suc k))"
    using assms set1_nonneg [of "int k + 1" ?u2 "snd ?x + (- p) * h"]
      partial_update(2) [OF assms, of ?F s]
    by (simp only: v) (simp add: length_partial nat_add_distrib)
  show ?thesis
    unfolding explicit_step_def
    by (simp only: prod.case g1 g2 s1 s2 sum.case)
qed

lemma implicit_step_partial:
  assumes "Suc k < M"
  shows "implicit_step p h (int k)
           (partial_u1 (implicit_update p h) s M k, partial_u2 (implicit_update p h) s M k) =
         Inr (partial_u1 (implicit_update p h) s M (Suc k),
              partial_u2 (implicit_update p h) s M (Suc k))"
proof -
  let ?F = "implicit_update p h"
  let ?u1 = "partial_u1 ?F s M k" and ?u2 = "partial_u2 ?F s M k"
  let ?u2' = "partial_u2 ?F s M (Suc k)"
  let ?x = "(?F ^^ k) (0, s)"
  let ?x' = "(?F ^^ Suc k) (0, s)"
  have k: "k < M" using assms by simp
  have g1: "get1 ?u1 (int k) = Inr (fst ?x)"
    using k get1_nonneg [of "int k" ?u1] by (simp add: length_partial nth_partial)
  have g2: "get1 ?u2 (int k) = Inr (snd ?x)"
    using k get1_nonneg [of "int k" ?u2] by (simp add: length_partial nth_partial)
  have g3: "get1 ?u2' (int k + 1) = Inr (snd ?x')"
    using assms get1_nonneg [of "int k + 1" ?u2']
    by (simp add: length_partial nth_partial nat_add_distrib del: funpow.simps)
  have v: "snd ?x + (- p) * h = snd ?x'" "fst ?x + snd ?x' * h = fst ?x'"
    by (simp_all add: implicit_update_def)
  have s2: "set1 ?u2 (int k + 1) (snd ?x + (- p) * h) = Inr ?u2'"
    using assms set1_nonneg [of "int k + 1" ?u2 "snd ?x + (- p) * h"]
      partial_update(2) [OF assms, of ?F s]
    by (simp only: v) (simp add: length_partial nat_add_distrib)
  have s1: "set1 ?u1 (int k + 1) (fst ?x + snd ?x' * h) = Inr (partial_u1 ?F s M (Suc k))"
    using assms set1_nonneg [of "int k + 1" ?u1 "fst ?x + snd ?x' * h"]
      partial_update(1) [OF assms, of ?F s]
    by (simp only: v) (simp add: length_partial nat_add_distrib)
  show ?thesis
    unfolding implicit_step_def
    by (simp only: prod.case g1 g2 g3 s1 s2 sum.case)
qed

lemma explicit_loop:
  "k < M \<Longrightarrow>
   for_loop (explicit_step p h) (map int [0..<k])
     (partial_u1 (explicit_update p h) s M 0, partial_u2 (explicit_update p h) s M 0) =
   Inr (partial_u1 (explicit_update p h) s M k, partial_u2 (explicit_update p h) s M k)"
proof (induction k)
  case 0
  show ?case by simp
next
  case (Suc k)
  then have "for_loop (explicit_step p h) (map int [0..<k])
       (partial_u1 (explicit_update p h) s M 0, partial_u2 (explicit_update p h) s M 0) =
     Inr (partial_u1 (explicit_update p h) s M k, partial_u2 (explicit_update p h) s M k)"
    by simp
  then show ?case
    using explicit_step_partial [OF Suc.prems, of p h s]
    by (simp only: for_loop_upt_Suc sum.case)
qed

lemma implicit_loop:
  "k < M \<Longrightarrow>
   for_loop (implicit_step p h) (map int [0..<k])
     (partial_u1 (implicit_update p h) s M 0, partial_u2 (implicit_update p h) s M 0) =
   Inr (partial_u1 (implicit_update p h) s M k, partial_u2 (implicit_update p h) s M k)"
proof (induction k)
  case 0
  show ?case by simp
next
  case (Suc k)
  then have "for_loop (implicit_step p h) (map int [0..<k])
       (partial_u1 (implicit_update p h) s M 0, partial_u2 (implicit_update p h) s M 0) =
     Inr (partial_u1 (implicit_update p h) s M k, partial_u2 (implicit_update p h) s M k)"
    by simp
  then show ?case
    using implicit_step_partial [OF Suc.prems, of p h s]
    by (simp only: for_loop_upt_Suc sum.case)
qed

lemma partial_full:
  "0 < M \<Longrightarrow> partial_u1 F s M (M - 1) = map fst (trajectory F s M)"
  "0 < M \<Longrightarrow> partial_u2 F s M (M - 1) = map snd (trajectory F s M)"
  by (auto simp: partial_u1_def partial_u2_def trajectory_def)

lemma initial_arrays:
  assumes "0 < M"
  shows "np_zeros (int M) = Inr (replicate M 0)"
    and "set1 (replicate M 0) 0 0 = Inr (partial_u1 F s M 0)"
    and "set1 (replicate M 0) 0 s = Inr (partial_u2 F s M 0)"
proof -
  show "np_zeros (int M) = Inr (replicate M 0)" by (simp add: np_zeros_def)
  have "(replicate M (0::real))[0 := 0] = partial_u1 F s M 0"
    by (auto simp: list_eq_iff_nth_eq nth_list_update partial_u1_def)
  then show "set1 (replicate M 0) 0 0 = Inr (partial_u1 F s M 0)"
    using assms set1_nonneg [of 0 "replicate M 0" 0] by simp
  have "(replicate M (0::real))[0 := s] = partial_u2 F s M 0"
    by (auto simp: list_eq_iff_nth_eq nth_list_update partial_u2_def)
  then show "set1 (replicate M 0) 0 s = Inr (partial_u2 F s M 0)"
    using assms set1_nonneg [of 0 "replicate M 0" s] by simp
qed

lemma explicit_closed:
  "(explicit_update p h ^^ j) (0, s) =
     (s * h * real j - p * h\<^sup>2 * (real j * (real j - 1) / 2), s - p * h * real j)"
proof (induction j)
  case 0
  show ?case by simp
next
  case (Suc j)
  then show ?case
    by (simp add: explicit_update_def power2_eq_square field_simps)
qed

lemma implicit_closed:
  "(implicit_update p h ^^ j) (0, s) =
     (s * h * real j - p * h\<^sup>2 * (real j * (real j + 1) / 2), s - p * h * real j)"
proof (induction j)
  case 0
  show ?case by simp
next
  case (Suc j)
  then show ?case
    by (simp add: implicit_update_def power2_eq_square field_simps)
qed

lemma py_round_int: "py_round (of_int n) = n"
  by (simp add: py_round_def)

lemma py_round_100: "py_round (1 / (1 / 100)) = 100"
  using py_round_int [of 100] by simp

lemma py_round_nonneg: "0 \<le> x \<Longrightarrow> 0 \<le> py_round x"
  by (auto simp: py_round_def Let_def)

lemma py_round_zero:
  assumes "- 1 / 2 \<le> x" "x \<le> 1 / 2"
  shows "py_round x = 0"
proof (cases "0 \<le> x")
  case True
  then have "\<lfloor>x\<rfloor> = 0" using assms by (intro floor_unique) simp_all
  then show ?thesis using assms by (simp add: py_round_def Let_def)
next
  case False
  then have "\<lfloor>x\<rfloor> = - 1" using assms by (intro floor_unique) simp_all
  then show ?thesis using assms by (simp add: py_round_def Let_def)
qed

lemma py_round_neg_one:
  assumes "- 3 / 2 < x" "x < - 1 / 2"
  shows "py_round x = - 1"
proof (cases "- 1 \<le> x")
  case True
  then have "\<lfloor>x\<rfloor> = - 1" using assms by (intro floor_unique) simp_all
  then show ?thesis using assms by (simp add: py_round_def Let_def)
next
  case False
  then have "\<lfloor>x\<rfloor> = - 2" using assms by (intro floor_unique) simp_all
  then show ?thesis using assms by (simp add: py_round_def Let_def)
qed

lemma py_round_le_floor_Suc: "py_round x \<le> \<lfloor>x\<rfloor> + 1"
  by (simp add: py_round_def Let_def)

lemma py_round_ge_floor: "\<lfloor>x\<rfloor> \<le> py_round x"
  by (simp add: py_round_def Let_def)

lemma py_round_low:
  assumes "x \<le> - 3 / 2"
  shows "py_round x \<le> - 2"
proof (cases "- 2 \<le> x")
  case True
  then have "\<lfloor>x\<rfloor> = - 2" using assms by (intro floor_unique) simp_all
  then show ?thesis using assms by (simp add: py_round_def Let_def)
next
  case False
  then have "x < of_int (- 2)" by simp
  then have "\<lfloor>x\<rfloor> < - 2" by (simp only: floor_less_iff)
  then show ?thesis using py_round_le_floor_Suc [of x] by linarith
qed

lemma py_round_high:
  assumes "1 / 2 < x"
  shows "1 \<le> py_round x"
proof (cases "x < 1")
  case True
  then have "\<lfloor>x\<rfloor> = 0" using assms by (intro floor_unique) simp_all
  then show ?thesis using assms by (simp add: py_round_def Let_def)
next
  case False
  then have "of_int 1 \<le> x" by simp
  then have "1 \<le> \<lfloor>x\<rfloor>" by (simp only: le_floor_iff)
  then show ?thesis using py_round_ge_floor [of x] by linarith
qed

lemma round_inverse:
  "0 < h \<Longrightarrow> h < 2 \<Longrightarrow> 1 \<le> py_round (1 / h)"
  "2 \<le> h \<Longrightarrow> py_round (1 / h) = 0"
  "h \<le> - 2 \<Longrightarrow> py_round (1 / h) = 0"
  "- 2 < h \<Longrightarrow> h < - 2 / 3 \<Longrightarrow> py_round (1 / h) = - 1"
  "- 2 / 3 \<le> h \<Longrightarrow> h < 0 \<Longrightarrow> py_round (1 / h) \<le> - 2"
proof -
  show "0 < h \<Longrightarrow> h < 2 \<Longrightarrow> 1 \<le> py_round (1 / h)"
    by (rule py_round_high) (simp add: field_simps)
  show "2 \<le> h \<Longrightarrow> py_round (1 / h) = 0"
    by (rule py_round_zero) (simp_all add: field_simps)
  show "h \<le> - 2 \<Longrightarrow> py_round (1 / h) = 0"
    by (rule py_round_zero) (simp_all add: field_simps)
  show "- 2 < h \<Longrightarrow> h < - 2 / 3 \<Longrightarrow> py_round (1 / h) = - 1"
    by (rule py_round_neg_one) (simp_all add: field_simps)
  show "- 2 / 3 \<le> h \<Longrightarrow> h < 0 \<Longrightarrow> py_round (1 / h) \<le> - 2"
    by (rule py_round_low) (simp add: field_simps)
qed

lemma shooting_method_eq:
  "shooting_method g p = Inr (fst ((explicit_update p (1 / 100) ^^ 99) (0, of_int g)))"
proof -
  let ?F = "explicit_update p (1 / 100)"
  let ?s = "real_of_int g"
  let ?M = "100 :: nat"
  have z: "np_zeros 100 = Inr (replicate ?M 0)"
    using initial_arrays(1) [of ?M] by simp
  have r: "py_range 0 (100 - 1) = map int [0..<99]"
    using py_range_zero [of 99] by simp
  have loop: "for_loop (explicit_step p (1 / 100)) (map int [0..<99])
      (partial_u1 ?F ?s ?M 0, partial_u2 ?F ?s ?M 0) =
      Inr (partial_u1 ?F ?s ?M 99, partial_u2 ?F ?s ?M 99)"
    by (rule explicit_loop) simp
  have last: "get1 (partial_u1 ?F ?s ?M 99) (- 1) = Inr (fst ((?F ^^ 99) (0, ?s)))"
    by (simp add: get1_def norm_index_last length_partial nth_partial)
  have i1: "set1 (replicate ?M 0) 0 0 = Inr (partial_u1 ?F ?s ?M 0)"
    by (rule initial_arrays(2)) simp
  have i2: "set1 (replicate ?M 0) 0 ?s = Inr (partial_u2 ?F ?s ?M 0)"
    by (rule initial_arrays(3)) simp
  show ?thesis
    unfolding shooting_method_def Let_def py_round_100
    by (simp only: z r sum.case i1 i2 loop prod.case last)
qed

lemma shooting_method_closed:
  "shooting_method g p = Inr (99 / 100 * of_int g - 4851 / 10000 * p)"
  by (simp add: shooting_method_eq explicit_closed power2_eq_square)

lemma initial_value_loop:
  assumes t: "\<And>g. shooting_method g p = Inr (t g)"
  shows "0 < m \<Longrightarrow>
         \<exists>k<m. for_loop (initial_value_step p) (map int [0..<m]) (None, Infinity) =
                  Inr (Some (int k), Finite \<bar>t (int k) - 1\<bar>) \<and>
               (\<forall>j<m. \<bar>t (int k) - 1\<bar> \<le> \<bar>t (int j) - 1\<bar>) \<and>
               (\<forall>j<k. \<bar>t (int k) - 1\<bar> < \<bar>t (int j) - 1\<bar>)"
proof (induction m)
  case 0
  then show ?case by simp
next
  case (Suc m)
  show ?case
  proof (cases "m = 0")
    case True
    have "for_loop (initial_value_step p) (map int [0..<Suc 0]) (None, Infinity) =
            Inr (Some (int 0), Finite \<bar>t (int 0) - 1\<bar>)"
      by (simp add: initial_value_step_def t)
    then show ?thesis using True by auto
  next
    case False
    then obtain k where k: "k < m"
        "for_loop (initial_value_step p) (map int [0..<m]) (None, Infinity) =
           Inr (Some (int k), Finite \<bar>t (int k) - 1\<bar>)"
        "\<forall>j<m. \<bar>t (int k) - 1\<bar> \<le> \<bar>t (int j) - 1\<bar>"
        "\<forall>j<k. \<bar>t (int k) - 1\<bar> < \<bar>t (int j) - 1\<bar>"
      using Suc.IH by auto
    show ?thesis
    proof (cases "\<bar>t (int m) - 1\<bar> < \<bar>t (int k) - 1\<bar>")
      case True
      have "for_loop (initial_value_step p) (map int [0..<Suc m]) (None, Infinity) =
              Inr (Some (int m), Finite \<bar>t (int m) - 1\<bar>)"
        using True by (simp only: for_loop_upt_Suc k(2) sum.case)
          (simp add: initial_value_step_def t)
      moreover have "\<forall>j<Suc m. \<bar>t (int m) - 1\<bar> \<le> \<bar>t (int j) - 1\<bar>"
        using True k(3) by (auto simp: less_Suc_eq)
      moreover have "\<forall>j<m. \<bar>t (int m) - 1\<bar> < \<bar>t (int j) - 1\<bar>"
        using True k(3) by (meson order_less_le_trans)
      ultimately show ?thesis by blast
    next
      case False
      have "for_loop (initial_value_step p) (map int [0..<Suc m]) (None, Infinity) =
              Inr (Some (int k), Finite \<bar>t (int k) - 1\<bar>)"
        using False by (simp only: for_loop_upt_Suc k(2) sum.case)
          (simp add: initial_value_step_def t)
      moreover have "\<forall>j<Suc m. \<bar>t (int k) - 1\<bar> \<le> \<bar>t (int j) - 1\<bar>"
        using False k(3) by (auto simp: less_Suc_eq)
      ultimately show ?thesis using k(1,4) less_Suc_eq by blast
    qed
  qed
qed

lemma initial_value_result:
  "\<exists>k<100. initial_value p = Inr (Some (int k)) \<and>
     (\<forall>j<100. \<bar>99 / 100 * real k - 4851 / 10000 * p - 1\<bar>
                \<le> \<bar>99 / 100 * real j - 4851 / 10000 * p - 1\<bar>) \<and>
     (\<forall>j<k. \<bar>99 / 100 * real k - 4851 / 10000 * p - 1\<bar>
                < \<bar>99 / 100 * real j - 4851 / 10000 * p - 1\<bar>)"
proof -
  have r: "py_range 0 100 = map int [0..<100]"
    using py_range_zero [of 100] by simp
  obtain k where k: "k < 100"
      "for_loop (initial_value_step p) (map int [0..<100]) (None, Infinity) =
         Inr (Some (int k), Finite \<bar>99 / 100 * of_int (int k) - 4851 / 10000 * p - 1\<bar>)"
      "\<forall>j<100. \<bar>99 / 100 * of_int (int k) - 4851 / 10000 * p - 1\<bar>
                \<le> \<bar>99 / 100 * of_int (int j) - 4851 / 10000 * p - 1\<bar>"
      "\<forall>j<k. \<bar>99 / 100 * of_int (int k) - 4851 / 10000 * p - 1\<bar>
                < \<bar>99 / 100 * of_int (int j) - 4851 / 10000 * p - 1\<bar>"
    using initial_value_loop [of p "\<lambda>g. 99 / 100 * of_int g - 4851 / 10000 * p" 100]
      shooting_method_closed by auto
  have "initial_value p = Inr (Some (int k))"
    by (simp only: initial_value_def r k(2) sum.case prod.case)
  then show ?thesis using k(1,3,4) by auto
qed

lemma initial_value_2: "initial_value 2 = Inr (Some 2)"
proof -
  obtain k where k: "k < 100" "initial_value 2 = Inr (Some (int k))"
      "\<forall>j<100. \<bar>99 / 100 * real k - 4851 / 10000 * 2 - 1\<bar>
                \<le> \<bar>99 / 100 * real j - 4851 / 10000 * 2 - 1\<bar>"
    using initial_value_result [of 2] by blast
  have b: "\<bar>99 / 100 * real k - 4851 / 10000 * 2 - 1\<bar> \<le> 98 / 10000"
    using k(3) [rule_format, of 2] by simp
  have "\<not> k \<le> 1"
  proof
    assume "k \<le> 1"
    then have "real k \<le> 1" by simp
    then show False using b by (simp add: abs_le_iff)
  qed
  moreover have "\<not> 3 \<le> k"
  proof
    assume "3 \<le> k"
    then have "3 \<le> real k" by simp
    then show False using b by (simp add: abs_le_iff)
  qed
  ultimately have "k = 2" by simp
  then show ?thesis using k(2) by simp
qed

lemma initial_value_1: "initial_value 1 = Inr (Some 2)"
proof -
  obtain k where k: "k < 100" "initial_value 1 = Inr (Some (int k))"
      "\<forall>j<100. \<bar>99 / 100 * real k - 4851 / 10000 * 1 - 1\<bar>
                \<le> \<bar>99 / 100 * real j - 4851 / 10000 * 1 - 1\<bar>"
    using initial_value_result [of 1] by blast
  have b: "\<bar>99 / 100 * real k - 4851 / 10000 * 1 - 1\<bar> \<le> 4949 / 10000"
    using k(3) [rule_format, of 2] by simp
  have "\<not> k \<le> 1"
  proof
    assume "k \<le> 1"
    then have "real k \<le> 1" by simp
    then show False using b by (simp add: abs_le_iff)
  qed
  moreover have "\<not> 3 \<le> k"
  proof
    assume "3 \<le> k"
    then have "3 \<le> real k" by simp
    then show False using b by (simp add: abs_le_iff)
  qed
  ultimately have "k = 2" by simp
  then show ?thesis using k(2) by simp
qed

lemma initial_value_Some: "\<exists>k. 0 \<le> k \<and> k \<le> 99 \<and> initial_value p = Inr (Some k)"
proof -
  obtain k where "k < 100" "initial_value p = Inr (Some (int k))"
    using initial_value_result [of p] by blast
  then show ?thesis by (intro exI [of _ "int k"]) simp
qed

lemma IVP_Explicit_eq:
  assumes h: "h \<noteq> 0" and r: "0 \<le> py_round (1 / h)" and s: "initial_value p = Inr (Some s)"
  shows "IVP_Explicit p h =
           Inr (map fst (trajectory (explicit_update p h) (of_int s) (nat (py_round (1 / h) + 1))),
                map snd (trajectory (explicit_update p h) (of_int s) (nat (py_round (1 / h) + 1))))"
proof -
  let ?F = "explicit_update p h"
  define M where "M = nat (py_round (1 / h) + 1)"
  have M: "0 < M" "py_round (1 / h) + 1 = int M"
    using r by (simp_all add: M_def)
  have pr: "py_range 0 (int M - 1) = map int [0..<M - 1]"
    using M(1) py_range_zero [of "M - 1"] by (simp add: of_nat_diff)
  have z: "np_zeros (int M) = Inr (replicate M 0)"
    by (rule initial_arrays(1) [OF M(1)])
  have i1: "set1 (replicate M 0) 0 0 = Inr (partial_u1 ?F (of_int s) M 0)"
    by (rule initial_arrays(2) [OF M(1)])
  have i2: "set1 (replicate M 0) 0 (of_int s) = Inr (partial_u2 ?F (of_int s) M 0)"
    by (rule initial_arrays(3) [OF M(1)])
  have loop: "for_loop (explicit_step p h) (map int [0..<M - 1])
      (partial_u1 ?F (of_int s) M 0, partial_u2 ?F (of_int s) M 0) =
      Inr (partial_u1 ?F (of_int s) M (M - 1), partial_u2 ?F (of_int s) M (M - 1))"
    by (rule explicit_loop) (use M(1) in simp)
  show ?thesis
    unfolding IVP_Explicit_def Let_def M(2)
    by (simp only: h if_False z i1 i2 s sum.case option.case pr loop
        partial_full [OF M(1)] nat_int)
qed

lemma IVP_Implicit_eq:
  assumes h: "h \<noteq> 0" and r: "0 \<le> py_round (1 / h)" and s: "initial_value p = Inr (Some s)"
  shows "IVP_Implicit p h =
           Inr (map fst (trajectory (implicit_update p h) (of_int s) (nat (py_round (1 / h) + 1))),
                map snd (trajectory (implicit_update p h) (of_int s) (nat (py_round (1 / h) + 1))))"
proof -
  let ?F = "implicit_update p h"
  define M where "M = nat (py_round (1 / h) + 1)"
  have M: "0 < M" "py_round (1 / h) + 1 = int M"
    using r by (simp_all add: M_def)
  have pr: "py_range 0 (int M - 1) = map int [0..<M - 1]"
    using M(1) py_range_zero [of "M - 1"] by (simp add: of_nat_diff)
  have z: "np_zeros (int M) = Inr (replicate M 0)"
    by (rule initial_arrays(1) [OF M(1)])
  have i1: "set1 (replicate M 0) 0 0 = Inr (partial_u1 ?F (of_int s) M 0)"
    by (rule initial_arrays(2) [OF M(1)])
  have i2: "set1 (replicate M 0) 0 (of_int s) = Inr (partial_u2 ?F (of_int s) M 0)"
    by (rule initial_arrays(3) [OF M(1)])
  have loop: "for_loop (implicit_step p h) (map int [0..<M - 1])
      (partial_u1 ?F (of_int s) M 0, partial_u2 ?F (of_int s) M 0) =
      Inr (partial_u1 ?F (of_int s) M (M - 1), partial_u2 ?F (of_int s) M (M - 1))"
    by (rule implicit_loop) (use M(1) in simp)
  show ?thesis
    unfolding IVP_Implicit_def Let_def M(2)
    by (simp only: h if_False z i1 i2 s sum.case option.case pr loop
        partial_full [OF M(1)] nat_int)
qed

lemma IVP_negative_length:
  assumes "h \<noteq> 0" "py_round (1 / h) + 1 < 0"
  shows "IVP_Explicit p h = Inl ValueError" "IVP_Implicit p h = Inl ValueError"
  using assms by (simp_all add: IVP_Explicit_def IVP_Implicit_def np_zeros_def)

lemma IVP_empty:
  assumes "h \<noteq> 0" "py_round (1 / h) = - 1"
  shows "IVP_Explicit p h = Inl IndexError" "IVP_Implicit p h = Inl IndexError"
  using assms
  by (simp_all add: IVP_Explicit_def IVP_Implicit_def np_zeros_def set1_def norm_index_def)

lemma trajectory_single: "trajectory F s (Suc 0) = [(0, s)]"
  by (simp add: trajectory_def)

lemma length_trajectory: "length (trajectory F s M) = M"
  by (simp add: trajectory_def)

lemma nth_trajectory: "i < M \<Longrightarrow> trajectory F s M ! i = (F ^^ i) (0, s)"
  by (simp add: trajectory_def)

lemma integrators_return:
  assumes h: "h \<noteq> 0" and r: "0 \<le> py_round (1 / h)"
  shows "\<exists>s. 0 \<le> s \<and> s \<le> 99 \<and> initial_value p = Inr (Some s) \<and>
           IVP_Explicit p h =
             Inr (map fst (trajectory (explicit_update p h) (of_int s) (nat (py_round (1 / h) + 1))),
                  map snd (trajectory (explicit_update p h) (of_int s) (nat (py_round (1 / h) + 1)))) \<and>
           IVP_Implicit p h =
             Inr (map fst (trajectory (implicit_update p h) (of_int s) (nat (py_round (1 / h) + 1))),
                  map snd (trajectory (implicit_update p h) (of_int s) (nat (py_round (1 / h) + 1))))"
proof -
  obtain s where s: "0 \<le> s" "s \<le> 99" "initial_value p = Inr (Some s)"
    using initial_value_Some [of p] by blast
  show ?thesis
    using s IVP_Explicit_eq [OF h r s(3)] IVP_Implicit_eq [OF h r s(3)] by blast
qed

lemma snd_trajectories:
  "map snd (trajectory (explicit_update p h) s M) = map snd (trajectory (implicit_update p h) s M)"
  by (simp add: trajectory_def explicit_closed implicit_closed)


lemma eigvals_2x2_contract: "eigvals_contract eigvals_2x2 [[a, b], [c, d]]"
proof -
  let ?tr = "complex_of_real (a + d)" and ?det = "complex_of_real (a * d - b * c)"
  let ?disc = "csqrt (?tr\<^sup>2 - 4 * ?det)"
  have sq: "?disc * ?disc = ?tr\<^sup>2 - 4 * ?det"
    using power2_csqrt [of "?tr\<^sup>2 - 4 * ?det"] by (simp only: power2_eq_square)
  have "(?tr + ?disc) / 2 + (?tr - ?disc) / 2 = ?tr" by (simp add: field_simps)
  moreover have "(?tr + ?disc) / 2 * ((?tr - ?disc) / 2) = ?det"
  proof -
    have "(?tr + ?disc) / 2 * ((?tr - ?disc) / 2) = (?tr * ?tr - ?disc * ?disc) / 4"
      by (simp add: field_simps)
    also have "\<dots> = ?det" by (simp only: sq) (simp add: power2_eq_square)
    finally show ?thesis .
  qed
  moreover have "eigvals_2x2 [[a, b], [c, d]] = [(?tr + ?disc) / 2, (?tr - ?disc) / 2]"
    by (simp add: eigvals_2x2_def Let_def)
  ultimately show ?thesis
    unfolding eigvals_contract_def by blast
qed

section \<open>Properties\<close>

text \<open>
  Claim C7: for every real \<open>P\<close> the analytical solution meets both boundary conditions
  exactly, \<open>analytical(0, P) = 0\<close> and \<open>analytical(1, P) = 1\<close>; the same holds
  elementwise for the array form at the samples 0 and 1.
\<close>

theorem analytical_solution_boundary:
  "analytical_solution 0 P = 0 \<and> analytical_solution 1 P = 1 \<and>
   analytical_solution_array [0, 1] P = [0, 1]"
  by (simp add: analytical_solution_def analytical_solution_array_def)

text \<open>
  Claim C1: for every \<open>P\<close> and every \<open>N \<ge> 2\<close> the system assembled by
  \<^verbatim>\<open>solve_couette_poiseuille\<close> has, in each interior row \<open>i\<close> with \<open>1 \<le> i \<le> N - 2\<close>,
  \<open>A[i, i - 1] = 1\<close>, \<open>A[i, i] = -2\<close>, \<open>A[i, i + 1] = 1\<close> and \<open>b[i] = -P * dy\<^sup>2\<close> with
  \<open>dy = 1 / (N - 1)\<close>, and the boundary rows \<open>A[0, 0] = 1\<close>, \<open>b[0] = 0\<close>,
  \<open>A[N - 1, N - 1] = 1\<close>, \<open>b[N - 1] = 1\<close>; every other entry of \<open>A\<close> is zero (\<open>A\<close> is
  \<open>spec_matrix\<close>). For \<open>P = 2\<close> and \<open>N = 5\<close> the right-hand side is
  \<open>[0, -0.125, -0.125, -0.125, 1]\<close>.
\<close>

theorem assemble_system_rows:
  "(2 \<le> N \<longrightarrow>
      (\<exists>y A b. assemble_system P N = Inr (y, A, b) \<and>
         A = spec_matrix (nat N) \<and> b = spec_rhs P (nat N) \<and>
         length A = nat N \<and> length b = nat N \<and>
         (\<forall>i. 1 \<le> i \<and> i \<le> N - 2 \<longrightarrow>
              A ! nat i ! nat (i - 1) = 1 \<and> A ! nat i ! nat i = - 2 \<and>
              A ! nat i ! nat (i + 1) = 1 \<and>
              b ! nat i = - P * (1 / real_of_int (N - 1))\<^sup>2) \<and>
         A ! 0 ! 0 = 1 \<and> b ! 0 = 0 \<and>
         A ! nat (N - 1) ! nat (N - 1) = 1 \<and> b ! nat (N - 1) = 1)) \<and>
   (\<exists>y A. assemble_system 2 5 = Inr (y, A, [0, - 0.125, - 0.125, - 0.125, 1]))"
proof (intro conjI impI)
  assume N: "2 \<le> N"
  let ?n = "nat N"
  let ?A = "spec_matrix ?n"
  let ?b = "spec_rhs P ?n"
  have n: "2 \<le> ?n" using N by simp
  have dy: "real_of_int (N - 1) = real (?n - 1)"
    using N by (simp add: of_nat_diff)
  have asm: "assemble_system P N = Inr (spec_grid ?n, ?A, ?b)"
    by (rule assemble_system_eq [OF N])
  have len: "length ?A = ?n" "length ?b = ?n"
    by (simp_all add: spec_matrix_def spec_rhs_def)
  have interior: "\<forall>i. 1 \<le> i \<and> i \<le> N - 2 \<longrightarrow>
      ?A ! nat i ! nat (i - 1) = 1 \<and> ?A ! nat i ! nat i = - 2 \<and>
      ?A ! nat i ! nat (i + 1) = 1 \<and>
      ?b ! nat i = - P * (1 / real_of_int (N - 1))\<^sup>2"
  proof (intro allI impI)
    fix i assume i: "1 \<le> i \<and> i \<le> N - 2"
    define r where "r = nat i"
    have r: "0 < r" "Suc r < ?n" "r < ?n" "r - 1 < ?n" "r \<noteq> ?n - 1"
      using i by (simp_all add: r_def) linarith+
    have idx: "nat i = r" "nat (i - 1) = r - 1" "nat (i + 1) = Suc r"
      using i by (simp_all add: r_def nat_diff_distrib' nat_add_distrib)
    have "?A ! r ! (r - 1) = 1" "?A ! r ! r = - 2" "?A ! r ! Suc r = 1"
      using r by (simp_all add: spec_matrix_def spec_entry_def stencil_def)
    moreover have "?b ! r = - P * (1 / real (?n - 1))\<^sup>2"
      using r by (simp add: spec_rhs_def)
    ultimately show "?A ! nat i ! nat (i - 1) = 1 \<and> ?A ! nat i ! nat i = - 2 \<and>
      ?A ! nat i ! nat (i + 1) = 1 \<and>
      ?b ! nat i = - P * (1 / real_of_int (N - 1))\<^sup>2"
      by (simp only: idx dy)
  qed
  have n1: "nat (N - 1) = ?n - 1" using N by (simp add: nat_diff_distrib')
  have bnd: "?A ! 0 ! 0 = 1" "?b ! 0 = 0"
      "?A ! nat (N - 1) ! nat (N - 1) = 1" "?b ! nat (N - 1) = 1"
    using n unfolding n1 by (simp_all add: spec_matrix_def spec_rhs_def spec_entry_def)
  show "\<exists>y A b. assemble_system P N = Inr (y, A, b) \<and>
         A = spec_matrix (nat N) \<and> b = spec_rhs P (nat N) \<and>
         length A = nat N \<and> length b = nat N \<and>
         (\<forall>i. 1 \<le> i \<and> i \<le> N - 2 \<longrightarrow>
              A ! nat i ! nat (i - 1) = 1 \<and> A ! nat i ! nat i = - 2 \<and>
              A ! nat i ! nat (i + 1) = 1 \<and>
              b ! nat i = - P * (1 / real_of_int (N - 1))\<^sup>2) \<and>
         A ! 0 ! 0 = 1 \<and> b ! 0 = 0 \<and>
         A ! nat (N - 1) ! nat (N - 1) = 1 \<and> b ! nat (N - 1) = 1"
    using asm len interior bnd by blast
next
  show "\<exists>y A. assemble_system 2 5 = Inr (y, A, [0, - 0.125, - 0.125, - 0.125, 1])"
    using assemble_system_eq [of 5 2] by (simp add: spec_system_5(2))
qed


theorem assemble_system_rows_witness:
  "(2::int) \<le> 5 \<and>
   (\<exists>y. assemble_system 2 5 =
      Inr (y, [[1, 0, 0, 0, 0], [1, - 2, 1, 0, 0], [0, 1, - 2, 1, 0], [0, 0, 1, - 2, 1],
               [0, 0, 0, 0, 1]],
           [0, - 0.125, - 0.125, - 0.125, 1]))"
  using assemble_system_rows [of 5 2] by (auto simp: spec_system_5)

text \<open>
  Claim C4: for every \<open>N \<ge> 2\<close> and every \<open>P\<close>, the solution vector \<open>u\<close> that
  \<^verbatim>\<open>solve_couette_poiseuille\<close> returns has \<open>u[0] = 0\<close> and \<open>u[-1] = 1\<close> exactly: rows
  \<open>0\<close> and \<open>N - 1\<close> of the assembled system are identity rows, so any solution of the
  system has these two entries. The solver is any \<open>linalg_solve\<close> that meets the contract
  of \<^verbatim>\<open>np.linalg.solve\<close> on the assembled system.
\<close>

theorem solve_boundary_values:
  assumes "2 \<le> N" and "solver_ok linalg_solve P N"
  shows "\<exists>y u. solve_couette_poiseuille linalg_solve P N = Inr (y, u) \<and> length u = nat N \<and>
           get1 u 0 = Inr 0 \<and> get1 u (- 1) = Inr 1 \<and> u ! 0 = 0 \<and> u ! (nat N - 1) = 1"
proof -
  let ?n = "nat N"
  have n: "2 \<le> ?n" using assms(1) by simp
  obtain u where u: "solve_couette_poiseuille linalg_solve P N = Inr (spec_grid ?n, u)"
      "solves (spec_matrix ?n) (spec_rhs P ?n) u"
    using solve_returns [OF assms] by blast
  have len: "length u = ?n" and eq: "mat_vec (spec_matrix ?n) u = spec_rhs P ?n"
    using u(2) by (simp_all add: solves_def spec_matrix_def)
  have first: "u ! 0 = 0"
    using mat_vec_spec_nth [OF n len, of 0] n by (simp add: eq spec_rhs_def)
  have last: "u ! (?n - 1) = 1"
    using mat_vec_spec_nth [OF n len, of "?n - 1"] n by (simp add: eq spec_rhs_def)
  have "(0::int) < int (length u)" using assms(1) len by simp
  then have "get1 u 0 = Inr (u ! nat 0)" by (intro get1_nonneg) simp_all
  then have "get1 u 0 = Inr 0" using first by simp
  moreover have "get1 u (- 1) = Inr 1"
    using n len last by (simp add: get1_def norm_index_last)
  ultimately show ?thesis
    using u(1) len first last by simp
qed

theorem solve_boundary_values_witness:
  "(2::int) \<le> 5 \<and> solver_ok gauss_solve 2 5 \<and>
   (\<exists>y u. solve_couette_poiseuille gauss_solve 2 5 = Inr (y, u) \<and> length u = 5 \<and>
      get1 u 0 = Inr 0 \<and> get1 u (- 1) = Inr 1 \<and> u ! 0 = 0 \<and> u ! 4 = 1)"
  using solve_boundary_values [of 5 gauss_solve 2] gauss_ok_5 by simp

text \<open>
  Claim C6: for every \<open>N \<ge> 2\<close> and every \<open>P\<close> the assembled matrix is non-singular and
  the solve succeeds, returning a solution of the assembled system; the function fails
  only when \<open>N < 2\<close>. For \<open>N < 2\<close> it does fail, before the solver is reached: with
  ZeroDivisionError for \<open>N = 1\<close> (the division \<open>1.0 / (N - 1)\<close>), IndexError for \<open>N = 0\<close>
  (\<open>A[0, 0]\<close> on an empty array) and ValueError for \<open>N < 0\<close> (a negative sample count).
\<close>

theorem solve_succeeds:
  assumes "solver_ok linalg_solve P N"
  shows "(2 \<le> N \<longrightarrow>
           (\<exists>y A b u. assemble_system P N = Inr (y, A, b) \<and> \<not> singular A \<and>
              solve_couette_poiseuille linalg_solve P N = Inr (y, u) \<and> solves A b u)) \<and>
         (N < 2 \<longrightarrow> solve_couette_poiseuille linalg_solve P N =
              Inl (if N = 1 then ZeroDivisionError else if N = 0 then IndexError
                   else ValueError)) \<and>
         ((\<exists>e. solve_couette_poiseuille linalg_solve P N = Inl e) \<longleftrightarrow> N < 2)"
proof -
  have big: "\<exists>y A b u. assemble_system P N = Inr (y, A, b) \<and> \<not> singular A \<and>
              solve_couette_poiseuille linalg_solve P N = Inr (y, u) \<and> solves A b u"
    if N: "2 \<le> N"
  proof -
    have "2 \<le> nat N" using N by simp
    then have "\<not> singular (spec_matrix (nat N))" by (rule spec_matrix_nonsingular)
    then show ?thesis
      using solve_returns [OF N assms] assemble_system_eq [OF N, of P] by blast
  qed
  have small: "solve_couette_poiseuille linalg_solve P N =
              Inl (if N = 1 then ZeroDivisionError else if N = 0 then IndexError
                   else ValueError)" if "N < 2"
    using that by (rule solve_small)
  have "(\<exists>e. solve_couette_poiseuille linalg_solve P N = Inl e) \<longleftrightarrow> N < 2"
  proof (cases "2 \<le> N")
    case True
    then show ?thesis using big by fastforce
  next
    case False
    then show ?thesis using small by simp
  qed
  then show ?thesis using big small by blast
qed

theorem solve_succeeds_witness:
  "solver_ok gauss_solve 2 5 \<and> (2::int) \<le> 5 \<and>
   (\<exists>y A b u. assemble_system 2 5 = Inr (y, A, b) \<and> \<not> singular A \<and>
      solve_couette_poiseuille gauss_solve 2 5 = Inr (y, u) \<and> solves A b u) \<and>
   solver_ok gauss_solve 2 1 \<and> (1::int) < 2 \<and>
   solve_couette_poiseuille gauss_solve 2 1 = Inl ZeroDivisionError"
proof -
  have ok1: "solver_ok gauss_solve 2 1"
    by (simp add: solver_ok_def assemble_system_def)
  show ?thesis
    using solve_succeeds [OF gauss_ok_5] solve_succeeds [OF ok1] gauss_ok_5 ok1 by simp
qed

text \<open>
  Claim C9: for every \<open>N \<ge> 2\<close> the grid that \<^verbatim>\<open>solve_couette_poiseuille\<close> returns has
  \<open>N\<close> points, the point \<open>k\<close> is \<open>k * dy\<close> with \<open>dy = 1 / (N - 1)\<close>, consecutive points
  differ by \<open>dy\<close>, the sequence is strictly increasing and lies in \<open>[0, 1]\<close>, and its
  first and last points are exactly \<open>0\<close> and \<open>1\<close>.
\<close>

theorem solve_grid:
  assumes "2 \<le> N" and "solver_ok linalg_solve P N"
  shows "\<exists>y u. solve_couette_poiseuille linalg_solve P N = Inr (y, u) \<and> length y = nat N \<and>
           (\<forall>k. k < nat N \<longrightarrow> y ! k = real k * (1 / real_of_int (N - 1))) \<and>
           (\<forall>k. Suc k < nat N \<longrightarrow> y ! Suc k - y ! k = 1 / real_of_int (N - 1)) \<and>
           sorted_wrt (<) y \<and> (\<forall>k. k < nat N \<longrightarrow> 0 \<le> y ! k \<and> y ! k \<le> 1) \<and>
           get1 y 0 = Inr 0 \<and> get1 y (- 1) = Inr 1 \<and> hd y = 0 \<and> last y = 1"
proof -
  let ?n = "nat N"
  let ?y = "spec_grid ?n"
  have n: "2 \<le> ?n" using assms(1) by simp
  have dy: "real_of_int (N - 1) = real (?n - 1)"
    using assms(1) by (simp add: of_nat_diff)
  have pos: "0 < real (?n - 1)" using n by simp
  obtain u where u: "solve_couette_poiseuille linalg_solve P N = Inr (?y, u)"
    using solve_returns [OF assms] by blast
  have len: "length ?y = ?n" by (rule length_spec_grid)
  have nth: "\<forall>k. k < ?n \<longrightarrow> ?y ! k = real k * (1 / real_of_int (N - 1))"
    by (simp add: nth_spec_grid dy)
  have "?y ! Suc k - ?y ! k = 1 / real (?n - 1)" if "Suc k < ?n" for k
    using that by (simp add: nth_spec_grid add_divide_distrib)
  then have step: "\<forall>k. Suc k < ?n \<longrightarrow> ?y ! Suc k - ?y ! k = 1 / real_of_int (N - 1)"
    by (simp only: dy) blast
  have sorted: "sorted_wrt (<) ?y"
    using pos by (simp add: sorted_wrt_iff_nth_less length_spec_grid nth_spec_grid
        divide_strict_right_mono)
  have range: "\<forall>k. k < ?n \<longrightarrow> 0 \<le> ?y ! k \<and> ?y ! k \<le> 1"
    using pos by (auto simp: nth_spec_grid)
  have first: "?y ! 0 = 0" using n by (simp add: nth_spec_grid)
  have last: "?y ! (?n - 1) = 1" using n pos by (simp add: nth_spec_grid)
  have "(0::int) < int (length ?y)" using assms(1) len by simp
  then have "get1 ?y 0 = Inr (?y ! nat 0)" by (intro get1_nonneg) simp_all
  then have g0: "get1 ?y 0 = Inr 0" using first by simp
  have g1: "get1 ?y (- 1) = Inr 1"
    using n last by (simp add: get1_def norm_index_last length_spec_grid)
  have ne: "?y \<noteq> []" using n len by auto
  have hd: "hd ?y = 0" using first ne by (simp add: hd_conv_nth)
  have la: "last ?y = 1" using last ne by (simp add: last_conv_nth length_spec_grid)
  show ?thesis
    using u len nth step sorted range g0 g1 hd la by blast
qed

theorem solve_grid_witness:
  "(2::int) \<le> 5 \<and> solver_ok gauss_solve 2 5 \<and>
   (\<exists>u. solve_couette_poiseuille gauss_solve 2 5 = Inr ([0, 0.25, 0.5, 0.75, 1], u))"
proof -
  have "solve_couette_poiseuille gauss_solve 2 5 =
          Inr (spec_grid 5, analytical_solution_array (spec_grid 5) 2)"
    using solve_exact [of 5 gauss_solve 2] gauss_ok_5 by simp
  then show ?thesis
    using solve_grid [of 5 gauss_solve 2] gauss_ok_5 by (simp add: spec_system_5)
qed

text \<open>
  Claim C2: for every \<open>P\<close>, \<^verbatim>\<open>initial_value(P)\<close> searches the candidate slopes
  \<open>0, 1, \<dots>, 99\<close>; each candidate \<open>g\<close> is scored by the terminal \<open>u\<close> of an explicit Euler
  run with step \<open>h = 0.01\<close> over \<open>round(1/h)\<close> samples started at \<open>(0, g)\<close>, which
  \<^verbatim>\<open>shooting_method\<close> returns without failing; the result is a slope \<open>k\<close> in \<open>[0, 99]\<close>
  whose \<open>|terminal_u - 1|\<close> is least among all candidates and strictly less than that of
  every lower candidate (the first minimiser wins); the search never fails and never
  returns \<^verbatim>\<open>None\<close>.
\<close>

theorem initial_value_search:
  "\<exists>k t. (\<forall>g. shooting_method g p = Inr (t g)) \<and>
         (\<forall>g. t g = fst (last (trajectory (explicit_update p (1 / 100)) (of_int g)
                               (nat (py_round (1 / (1 / 100))))))) \<and>
         initial_value p = Inr (Some k) \<and> 0 \<le> k \<and> k \<le> 99 \<and>
         (\<forall>g. 0 \<le> g \<and> g \<le> 99 \<longrightarrow> \<bar>t k - 1\<bar> \<le> \<bar>t g - 1\<bar>) \<and>
         (\<forall>g. 0 \<le> g \<and> g < k \<longrightarrow> \<bar>t k - 1\<bar> < \<bar>t g - 1\<bar>)"
proof -
  define t where "t g = 99 / 100 * real_of_int g - 4851 / 10000 * p" for g
  obtain k where k: "k < 100" "initial_value p = Inr (Some (int k))"
      "\<forall>j<100. \<bar>t (int k) - 1\<bar> \<le> \<bar>t (int j) - 1\<bar>"
      "\<forall>j<k. \<bar>t (int k) - 1\<bar> < \<bar>t (int j) - 1\<bar>"
    using initial_value_result [of p] unfolding t_def by auto
  have a: "\<forall>g. shooting_method g p = Inr (t g)"
    by (simp add: shooting_method_closed t_def)
  have "\<forall>g. t g = fst ((explicit_update p (1 / 100) ^^ 99) (0, of_int g))"
    using a by (simp add: shooting_method_eq)
  moreover have "last (trajectory F s 100) = (F ^^ 99) (0, s)" for F s
    by (simp add: trajectory_def last_map)
  moreover have "nat (py_round (1 / (1 / 100))) = 100"
    by (simp only: py_round_100 nat_numeral)
  ultimately have b: "\<forall>g. t g = fst (last (trajectory (explicit_update p (1 / 100)) (of_int g)
                               (nat (py_round (1 / (1 / 100))))))"
    by (simp only:) simp
  have c: "\<forall>g. 0 \<le> g \<and> g \<le> 99 \<longrightarrow> \<bar>t (int k) - 1\<bar> \<le> \<bar>t g - 1\<bar>"
  proof (intro allI impI)
    fix g :: int assume g: "0 \<le> g \<and> g \<le> 99"
    then have "nat g < 100" "int (nat g) = g" by linarith+
    then show "\<bar>t (int k) - 1\<bar> \<le> \<bar>t g - 1\<bar>" using k(3) by metis
  qed
  have d: "\<forall>g. 0 \<le> g \<and> g < int k \<longrightarrow> \<bar>t (int k) - 1\<bar> < \<bar>t g - 1\<bar>"
  proof (intro allI impI)
    fix g :: int assume g: "0 \<le> g \<and> g < int k"
    then have "nat g < k" "int (nat g) = g" by linarith+
    then show "\<bar>t (int k) - 1\<bar> < \<bar>t g - 1\<bar>" using k(4) by metis
  qed
  have e: "0 \<le> int k" "int k \<le> 99" using k(1) by simp_all
  show ?thesis
    using a b k(2) e c d by blast
qed

theorem initial_value_search_witness:
  "initial_value 2 = Inr (Some 2) \<and> shooting_method 2 2 = Inr (5049 / 5000) \<and>
   shooting_method 1 2 = Inr (99 / 5000)"
proof -
  obtain k t where kt: "\<forall>g. shooting_method g 2 = Inr (t g)"
      "initial_value 2 = Inr (Some k)" "0 \<le> k" "k \<le> 99"
      "\<forall>g. 0 \<le> g \<and> g \<le> 99 \<longrightarrow> \<bar>t k - 1\<bar> \<le> \<bar>t g - 1\<bar>"
    using initial_value_search [of 2] by blast
  have t: "t g = 99 / 100 * real_of_int g - 4851 / 10000 * 2" for g
    using kt(1) [rule_format, of g] by (simp add: shooting_method_closed)
  have b: "\<bar>t k - 1\<bar> \<le> 98 / 10000"
    using kt(5) [rule_format, of 2] by (simp add: t)
  have "\<not> k \<le> 1"
  proof
    assume "k \<le> 1"
    then have "real_of_int k \<le> 1" by simp
    then show False using b by (simp add: t abs_le_iff)
  qed
  moreover have "\<not> 3 \<le> k"
  proof
    assume "3 \<le> k"
    then have "3 \<le> real_of_int k" by simp
    then show False using b by (simp add: t abs_le_iff)
  qed
  ultimately have "k = 2" by simp
  then show ?thesis using kt(2) by (simp add: shooting_method_closed)
qed

text \<open>
  Claim C10: for every \<open>P\<close> and every \<open>h > 0\<close> both integrators return, and their second
  components (the \<open>u'\<close> sequences) are the same list \<open>v\<close> of \<open>round(1/h) + 1\<close> entries,
  which obeys \<open>v[i + 1] = v[i] + (-P) * h\<close> at every step.
\<close>

theorem slope_sequences_equal:
  assumes "0 < h"
  shows "\<exists>ue ui v. IVP_Explicit p h = Inr (ue, v) \<and> IVP_Implicit p h = Inr (ui, v) \<and>
           length v = nat (py_round (1 / h) + 1) \<and>
           (\<forall>i. Suc i < length v \<longrightarrow> v ! Suc i = v ! i + (- p) * h)"
proof -
  let ?M = "nat (py_round (1 / h) + 1)"
  have h: "h \<noteq> 0" and r: "0 \<le> py_round (1 / h)"
    using assms by (simp_all add: py_round_nonneg)
  obtain s where s:
      "IVP_Explicit p h = Inr (map fst (trajectory (explicit_update p h) (of_int s) ?M),
                               map snd (trajectory (explicit_update p h) (of_int s) ?M))"
      "IVP_Implicit p h = Inr (map fst (trajectory (implicit_update p h) (of_int s) ?M),
                               map snd (trajectory (implicit_update p h) (of_int s) ?M))"
    using integrators_return [OF h r, of p] by blast
  let ?v = "map snd (trajectory (explicit_update p h) (of_int s) ?M)"
  have "IVP_Implicit p h = Inr (map fst (trajectory (implicit_update p h) (of_int s) ?M), ?v)"
    using s(2) by (simp only: snd_trajectories)
  moreover have "length ?v = ?M" by (simp add: length_trajectory)
  moreover have "\<forall>i. Suc i < length ?v \<longrightarrow> ?v ! Suc i = ?v ! i + (- p) * h"
    by (simp add: length_trajectory nth_trajectory explicit_update_def)
  ultimately show ?thesis using s(1) by blast
qed

theorem slope_sequences_equal_witness:
  "(0::real) < 1 / 4 \<and>
   (\<exists>ue ui v. IVP_Explicit 2 (1 / 4) = Inr (ue, v) \<and> IVP_Implicit 2 (1 / 4) = Inr (ui, v) \<and>
      length v = 5 \<and> v ! 1 = v ! 0 + (- 2) * (1 / 4))"
proof -
  have r: "py_round 4 = 4" using py_round_int [of 4] by simp
  obtain ue ui v where v: "IVP_Explicit 2 (1 / 4) = Inr (ue, v)"
      "IVP_Implicit 2 (1 / 4) = Inr (ui, v)"
      "length v = nat (py_round (1 / (1 / 4)) + 1)"
      "\<forall>i. Suc i < length v \<longrightarrow> v ! Suc i = v ! i + (- 2) * (1 / 4)"
    using slope_sequences_equal [of "1 / 4" 2] by auto
  have len: "length v = 5" using v(3) by (simp add: r)
  have "v ! 1 = v ! 0 + (- 2) * (1 / 4)"
    using v(4) [rule_format, of 0] len by simp
  then show ?thesis using v(1,2) len by simp
qed

text \<open>
  Claim C3, as stated, fails: it asks the two \<open>u\<close> trajectories to differ for every
  nonzero \<open>P\<close> and every \<open>h > 0\<close>. At \<open>P = 1\<close>, \<open>h = 3\<close> the sample count is
  \<open>round(1/3) + 1 = 1\<close>, no step is taken, and both integrators return the same
  trajectory \<open>u = [0]\<close>, \<open>u' = [2]\<close>.
\<close>

theorem integrators_coincide_counterexample:
  "IVP_Explicit 1 3 = Inr ([0], [2]) \<and> IVP_Implicit 1 3 = Inr ([0], [2])"
proof -
  have r: "py_round (1 / 3) = 0" by (rule py_round_zero) simp_all
  have h: "(3::real) \<noteq> 0" "0 \<le> py_round (1 / 3)" by (simp_all add: r)
  show ?thesis
    using IVP_Explicit_eq [OF h initial_value_1] IVP_Implicit_eq [OF h initial_value_1]
    by (simp add: r trajectory_single)
qed

text \<open>
  Claim C3, amended: for every \<open>P\<close> and every \<open>h > 0\<close> both integrators return
  trajectories of the same length \<open>M = round(1/h) + 1\<close> with the same \<open>u'\<close> sequence \<open>v\<close>,
  where \<open>v[i + 1] = v[i] + (-P) * h\<close>; both \<open>u\<close> sequences start at \<open>0\<close>; the explicit \<open>u\<close>
  obeys \<open>u[i + 1] = u[i] + v[i] * h\<close> and the implicit-flavoured one
  \<open>u[i + 1] = u[i] + v[i + 1] * h\<close>, the slope already updated. The two \<open>u\<close> trajectories
  need not differ: for \<open>h \<ge> 2\<close> (where \<open>M = 1\<close>) both are \<open>[0]\<close>, and where \<open>M \<ge> 2\<close> they
  differ at the first step exactly when the two increments \<open>v[1] * h\<close> and \<open>v[0] * h\<close>
  differ.
\<close>

theorem integrators_compare:
  assumes "0 < h"
  shows "\<exists>ue ui v. IVP_Explicit p h = Inr (ue, v) \<and> IVP_Implicit p h = Inr (ui, v) \<and>
           length ue = nat (py_round (1 / h) + 1) \<and>
           length ui = nat (py_round (1 / h) + 1) \<and>
           length v = nat (py_round (1 / h) + 1) \<and>
           ue ! 0 = 0 \<and> ui ! 0 = 0 \<and>
           (\<forall>i. Suc i < nat (py_round (1 / h) + 1) \<longrightarrow>
                ue ! Suc i = ue ! i + v ! i * h \<and> ui ! Suc i = ui ! i + v ! Suc i * h \<and>
                v ! Suc i = v ! i + (- p) * h) \<and>
           (2 \<le> nat (py_round (1 / h) + 1) \<longrightarrow>
              (ui ! 1 \<noteq> ue ! 1 \<longleftrightarrow> v ! 1 * h \<noteq> v ! 0 * h)) \<and>
           (2 \<le> h \<longrightarrow> ue = [0] \<and> ui = [0])"
proof -
  let ?M = "nat (py_round (1 / h) + 1)"
  let ?E = "explicit_update p h" and ?I = "implicit_update p h"
  have h: "h \<noteq> 0" and r: "0 \<le> py_round (1 / h)"
    using assms by (simp_all add: py_round_nonneg)
  have M: "0 < ?M" using r by simp
  obtain s where s:
      "IVP_Explicit p h = Inr (map fst (trajectory ?E (of_int s) ?M),
                               map snd (trajectory ?E (of_int s) ?M))"
      "IVP_Implicit p h = Inr (map fst (trajectory ?I (of_int s) ?M),
                               map snd (trajectory ?I (of_int s) ?M))"
    using integrators_return [OF h r, of p] by blast
  let ?ue = "map fst (trajectory ?E (of_int s) ?M)"
  let ?ui = "map fst (trajectory ?I (of_int s) ?M)"
  let ?v = "map snd (trajectory ?E (of_int s) ?M)"
  have v: "?v = map snd (trajectory ?I (of_int s) ?M)"
    by (rule snd_trajectories)
  have imp: "IVP_Implicit p h = Inr (?ui, ?v)"
    using s(2) by (simp only: v)
  have len: "length ?ue = ?M" "length ?ui = ?M" "length ?v = ?M"
    by (simp_all add: length_trajectory)
  have start: "?ue ! 0 = 0" "?ui ! 0 = 0"
    using M by (simp_all add: length_trajectory nth_trajectory)
  have step: "\<forall>i. Suc i < ?M \<longrightarrow>
      ?ue ! Suc i = ?ue ! i + ?v ! i * h \<and> ?ui ! Suc i = ?ui ! i + ?v ! Suc i * h \<and>
      ?v ! Suc i = ?v ! i + (- p) * h"
  proof (intro allI impI)
    fix i assume i: "Suc i < ?M"
    then have i': "i < ?M" by simp
    have "?ue ! Suc i = ?ue ! i + ?v ! i * h"
      using i i' by (simp add: length_trajectory nth_trajectory explicit_update_def)
    moreover have "?ui ! Suc i = ?ui ! i + ?v ! Suc i * h"
      unfolding v using i i'
      by (simp add: length_trajectory nth_trajectory implicit_update_def)
    moreover have "?v ! Suc i = ?v ! i + (- p) * h"
      using i i' by (simp add: length_trajectory nth_trajectory explicit_update_def)
    ultimately show "?ue ! Suc i = ?ue ! i + ?v ! i * h \<and>
        ?ui ! Suc i = ?ui ! i + ?v ! Suc i * h \<and> ?v ! Suc i = ?v ! i + (- p) * h"
      by blast
  qed
  have first: "2 \<le> ?M \<longrightarrow> (?ui ! 1 \<noteq> ?ue ! 1 \<longleftrightarrow> ?v ! 1 * h \<noteq> ?v ! 0 * h)"
  proof
    assume "2 \<le> ?M"
    then have "Suc 0 < ?M" by simp
    then have "?ue ! Suc 0 = ?ue ! 0 + ?v ! 0 * h" "?ui ! Suc 0 = ?ui ! 0 + ?v ! Suc 0 * h"
      using step by blast+
    then have "?ue ! 1 = ?v ! 0 * h" "?ui ! 1 = ?v ! 1 * h"
      by (simp_all only: start One_nat_def add_0)
    then show "?ui ! 1 \<noteq> ?ue ! 1 \<longleftrightarrow> ?v ! 1 * h \<noteq> ?v ! 0 * h"
      by (simp only:)
  qed
  have near: "2 \<le> h \<longrightarrow> ?ue = [0] \<and> ?ui = [0]"
  proof
    assume "2 \<le> h"
    then have "py_round (1 / h) = 0" by (rule round_inverse(2))
    then show "?ue = [0] \<and> ?ui = [0]" by (simp add: trajectory_single)
  qed
  show ?thesis
    apply (rule exI [of _ ?ue], rule exI [of _ ?ui], rule exI [of _ ?v])
    by (intro conjI; fact s(1) imp len start step first near)
qed

theorem integrators_compare_witness:
  "(0::real) < 1 / 4 \<and>
   (\<exists>ue ui v. IVP_Explicit 2 (1 / 4) = Inr (ue, v) \<and> IVP_Implicit 2 (1 / 4) = Inr (ui, v) \<and>
      length ue = 5 \<and> length ui = 5 \<and> length v = 5 \<and>
      ue ! 1 = ue ! 0 + v ! 0 * (1 / 4) \<and> ui ! 1 = ui ! 0 + v ! 1 * (1 / 4) \<and>
      v ! 1 * (1 / 4) \<noteq> v ! 0 * (1 / 4) \<and> ui ! 1 \<noteq> ue ! 1) \<and>
   (0::real) < 3 \<and> (2::real) \<le> 3 \<and>
   (\<exists>v. IVP_Explicit 2 3 = Inr ([0], v) \<and> IVP_Implicit 2 3 = Inr ([0], v))"
proof -
  have r: "py_round 4 = 4" using py_round_int [of 4] by simp
  have M: "nat (py_round (1 / (1 / 4)) + 1) = 5" by (simp add: r)
  have a: "\<exists>ue ui v. IVP_Explicit 2 (1 / 4) = Inr (ue, v) \<and>
      IVP_Implicit 2 (1 / 4) = Inr (ui, v) \<and>
      length ue = 5 \<and> length ui = 5 \<and> length v = 5 \<and>
      ue ! 1 = ue ! 0 + v ! 0 * (1 / 4) \<and> ui ! 1 = ui ! 0 + v ! 1 * (1 / 4) \<and>
      v ! 1 * (1 / 4) \<noteq> v ! 0 * (1 / 4) \<and> ui ! 1 \<noteq> ue ! 1"
  proof -
    obtain ue ui v where u: "IVP_Explicit 2 (1 / 4) = Inr (ue, v)"
        "IVP_Implicit 2 (1 / 4) = Inr (ui, v)"
        "length ue = nat (py_round (1 / (1 / 4)) + 1)"
        "length ui = nat (py_round (1 / (1 / 4)) + 1)"
        "length v = nat (py_round (1 / (1 / 4)) + 1)"
        "\<forall>i. Suc i < nat (py_round (1 / (1 / 4)) + 1) \<longrightarrow>
             ue ! Suc i = ue ! i + v ! i * (1 / 4) \<and> ui ! Suc i = ui ! i + v ! Suc i * (1 / 4) \<and>
             v ! Suc i = v ! i + (- 2) * (1 / 4)"
        "2 \<le> nat (py_round (1 / (1 / 4)) + 1) \<longrightarrow>
             (ui ! 1 \<noteq> ue ! 1 \<longleftrightarrow> v ! 1 * (1 / 4) \<noteq> v ! 0 * (1 / 4))"
    proof -
      have "(0::real) < 1 / 4" by simp
      from integrators_compare [OF this, of 2] show ?thesis
        using that by blast
    qed
    have s: "ue ! 1 = ue ! 0 + v ! 0 * (1 / 4)" "ui ! 1 = ui ! 0 + v ! 1 * (1 / 4)"
        "v ! 1 = v ! 0 + (- 2) * (1 / 4)"
      using u(6) [rule_format, of 0] by (simp_all only: M) simp_all
    have ne: "v ! 1 * (1 / 4) \<noteq> v ! 0 * (1 / 4)"
      by (simp only: s(3)) simp
    have neq: "ui ! 1 \<noteq> ue ! 1" using u(7) ne by (simp only: M) simp
    have len: "length ue = 5" "length ui = 5" "length v = 5"
      using u(3-5) by (simp_all only: M)
    show ?thesis
      apply (rule exI [of _ ue], rule exI [of _ ui], rule exI [of _ v])
      by (intro conjI; fact u(1) u(2) len s(1) s(2) ne neq)
  qed
  have b: "\<exists>v. IVP_Explicit 2 3 = Inr ([0], v) \<and> IVP_Implicit 2 3 = Inr ([0], v)"
    using integrators_compare [of 3 2] by auto
  show ?thesis using a b by simp
qed

text \<open>
  Claim C5, as stated, fails: it asks both integrators to raise for every \<open>h \<le> 0\<close>. At
  \<open>h = -3\<close> (with \<open>P = 2\<close>) the sample count is \<open>round(-1/3) + 1 = 1\<close> and both return
  the one-sample trajectory \<open>u = [0]\<close>, \<open>u' = [2]\<close> without any exception.
\<close>

theorem negative_step_counterexample:
  "IVP_Explicit 2 (- 3) = Inr ([0], [2]) \<and> IVP_Implicit 2 (- 3) = Inr ([0], [2])"
proof -
  have r: "py_round (1 / (- 3)) = 0" by (rule py_round_zero) simp_all
  have h: "(- 3::real) \<noteq> 0" "0 \<le> py_round (1 / (- 3))" by (simp_all only: r)
  show ?thesis
    using IVP_Explicit_eq [OF h initial_value_2] IVP_Implicit_eq [OF h initial_value_2]
    by (simp only: r) (simp add: trajectory_single)
qed

text \<open>
  Claim C5, amended: the integrators are functions of \<open>(P, h)\<close> that check nothing at
  entry. For \<open>h > 0\<close> both return a trajectory of \<open>round(1/h) + 1\<close> samples. For
  \<open>h = 0\<close> both raise ZeroDivisionError (from \<open>1/h\<close>); for \<open>-2/3 \<le> h < 0\<close> ValueError
  (a negative array length); for \<open>-2 < h < -2/3\<close> IndexError (an empty array); and for
  \<open>h \<le> -2\<close> both return the one-sample trajectory \<open>u = [0]\<close>, \<open>u' = [slope]\<close>.
\<close>

theorem integrators_step_size:
  "(0 < h \<longrightarrow>
      (\<exists>ue v. IVP_Explicit p h = Inr (ue, v) \<and> length ue = nat (py_round (1 / h) + 1) \<and>
              length v = nat (py_round (1 / h) + 1)) \<and>
      (\<exists>ui v. IVP_Implicit p h = Inr (ui, v) \<and> length ui = nat (py_round (1 / h) + 1) \<and>
              length v = nat (py_round (1 / h) + 1))) \<and>
   (h = 0 \<longrightarrow>
      IVP_Explicit p h = Inl ZeroDivisionError \<and> IVP_Implicit p h = Inl ZeroDivisionError) \<and>
   (- 2 / 3 \<le> h \<and> h < 0 \<longrightarrow>
      IVP_Explicit p h = Inl ValueError \<and> IVP_Implicit p h = Inl ValueError) \<and>
   (- 2 < h \<and> h < - 2 / 3 \<longrightarrow>
      IVP_Explicit p h = Inl IndexError \<and> IVP_Implicit p h = Inl IndexError) \<and>
   (h \<le> - 2 \<longrightarrow>
      (\<exists>s. initial_value p = Inr (Some s) \<and> IVP_Explicit p h = Inr ([0], [of_int s]) \<and>
           IVP_Implicit p h = Inr ([0], [of_int s])))"
proof (intro conjI impI)
  assume "0 < h"
  then have h: "h \<noteq> 0" and r: "0 \<le> py_round (1 / h)"
    by (simp_all add: py_round_nonneg)
  obtain s where s:
      "IVP_Explicit p h =
         Inr (map fst (trajectory (explicit_update p h) (of_int s) (nat (py_round (1 / h) + 1))),
              map snd (trajectory (explicit_update p h) (of_int s) (nat (py_round (1 / h) + 1))))"
      "IVP_Implicit p h =
         Inr (map fst (trajectory (implicit_update p h) (of_int s) (nat (py_round (1 / h) + 1))),
              map snd (trajectory (implicit_update p h) (of_int s) (nat (py_round (1 / h) + 1))))"
    using integrators_return [OF h r, of p] by blast
  show "\<exists>ue v. IVP_Explicit p h = Inr (ue, v) \<and> length ue = nat (py_round (1 / h) + 1) \<and>
              length v = nat (py_round (1 / h) + 1)"
    using s(1) by (simp add: length_trajectory)
  show "\<exists>ui v. IVP_Implicit p h = Inr (ui, v) \<and> length ui = nat (py_round (1 / h) + 1) \<and>
              length v = nat (py_round (1 / h) + 1)"
    using s(2) by (simp add: length_trajectory)
next
  assume "h = 0"
  then show "IVP_Explicit p h = Inl ZeroDivisionError" "IVP_Implicit p h = Inl ZeroDivisionError"
    by (simp_all add: IVP_Explicit_def IVP_Implicit_def)
next
  assume a: "- 2 / 3 \<le> h \<and> h < 0"
  then have "py_round (1 / h) \<le> - 2" using round_inverse(5) by simp
  then have "h \<noteq> 0" "py_round (1 / h) + 1 < 0" using a by simp_all
  then show "IVP_Explicit p h = Inl ValueError" "IVP_Implicit p h = Inl ValueError"
    by (rule IVP_negative_length)+
next
  assume a: "- 2 < h \<and> h < - 2 / 3"
  then have "h \<noteq> 0" "py_round (1 / h) = - 1" using round_inverse(4) by simp_all
  then show "IVP_Explicit p h = Inl IndexError" "IVP_Implicit p h = Inl IndexError"
    by (rule IVP_empty)+
next
  assume a: "h \<le> - 2"
  then have r0: "py_round (1 / h) = 0" by (rule round_inverse(3))
  have h: "h \<noteq> 0" and r: "0 \<le> py_round (1 / h)" using a r0 by simp_all
  obtain s where s: "initial_value p = Inr (Some s)"
    using initial_value_Some [of p] by blast
  show "\<exists>s. initial_value p = Inr (Some s) \<and> IVP_Explicit p h = Inr ([0], [of_int s]) \<and>
           IVP_Implicit p h = Inr ([0], [of_int s])"
    using s IVP_Explicit_eq [OF h r s] IVP_Implicit_eq [OF h r s]
    by (simp add: r0 trajectory_single)
qed

theorem integrators_step_size_witness:
  "(0::real) < 1 / 4 \<and>
   (\<exists>ue v. IVP_Explicit 2 (1 / 4) = Inr (ue, v) \<and> length ue = 5 \<and> length v = 5) \<and>
   (\<exists>ui v. IVP_Implicit 2 (1 / 4) = Inr (ui, v) \<and> length ui = 5 \<and> length v = 5) \<and>
   IVP_Explicit 2 0 = Inl ZeroDivisionError \<and> IVP_Implicit 2 0 = Inl ZeroDivisionError \<and>
   (- 2 / 3 :: real) \<le> - 1 / 2 \<and> (- 1 / 2 :: real) < 0 \<and>
   IVP_Explicit 2 (- 1 / 2) = Inl ValueError \<and> IVP_Implicit 2 (- 1 / 2) = Inl ValueError \<and>
   (- 2 :: real) < - 1 \<and> (- 1 :: real) < - 2 / 3 \<and>
   IVP_Explicit 2 (- 1) = Inl IndexError \<and> IVP_Implicit 2 (- 1) = Inl IndexError \<and>
   (- 4 :: real) \<le> - 2 \<and>
   (\<exists>s. initial_value 2 = Inr (Some s) \<and> IVP_Explicit 2 (- 4) = Inr ([0], [of_int s]) \<and>
        IVP_Implicit 2 (- 4) = Inr ([0], [of_int s]))"
proof -
  have r: "py_round 4 = 4" using py_round_int [of 4] by simp
  have M: "nat (py_round (1 / (1 / 4)) + 1) = 5" by (simp add: r)
  have a: "(\<exists>ue v. IVP_Explicit 2 (1 / 4) = Inr (ue, v) \<and> length ue = 5 \<and> length v = 5) \<and>
      (\<exists>ui v. IVP_Implicit 2 (1 / 4) = Inr (ui, v) \<and> length ui = 5 \<and> length v = 5)"
    using integrators_step_size [of "1 / 4" 2] unfolding M by simp
  have b: "IVP_Explicit 2 0 = Inl ZeroDivisionError \<and> IVP_Implicit 2 0 = Inl ZeroDivisionError"
    using integrators_step_size [of 0 2] by simp
  have c: "IVP_Explicit 2 (- 1 / 2) = Inl ValueError \<and> IVP_Implicit 2 (- 1 / 2) = Inl ValueError"
    using integrators_step_size [of "- 1 / 2" 2] by simp
  have d: "IVP_Explicit 2 (- 1) = Inl IndexError \<and> IVP_Implicit 2 (- 1) = Inl IndexError"
    using integrators_step_size [of "- 1" 2] by simp
  have e: "\<exists>s. initial_value 2 = Inr (Some s) \<and> IVP_Explicit 2 (- 4) = Inr ([0], [of_int s]) \<and>
        IVP_Implicit 2 (- 4) = Inr ([0], [of_int s])"
    using integrators_step_size [of "- 4" 2] by simp
  show ?thesis using a b c d e by simp
qed

text \<open>
  Claim C8: \<^verbatim>\<open>jacobian_eigenvalues\<close> takes no input, computes the eigenvalues of the fixed
  matrix \<open>[[0, 1], [0, 0]]\<close> and returns exactly \<open>0, 0\<close>; and \<open>0\<close> is the only number that
  has an eigenvector for this matrix.
\<close>

theorem jacobian_eigenvalues_zero:
  "(eigvals_contract eigvals [[0, 1], [0, 0]] \<longrightarrow> jacobian_eigenvalues eigvals = [0, 0]) \<and>
   (\<forall>l x y :: complex. (x \<noteq> 0 \<or> y \<noteq> 0) \<and> 0 * x + 1 * y = l * x \<and> 0 * x + 0 * y = l * y
        \<longrightarrow> l = 0)"
proof (intro conjI impI allI)
  assume "eigvals_contract eigvals [[0, 1], [0, 0]]"
  then obtain l1 l2 :: complex where l: "eigvals [[0, 1], [0, 0]] = [l1, l2]"
      "l1 + l2 = 0" "l1 * l2 = 0"
    by (auto simp: eigvals_contract_def)
  have "l1 = 0 \<or> l2 = 0" using l(3) by simp
  then have "l1 = 0 \<and> l2 = 0" using l(2) by auto
  then show "jacobian_eigenvalues eigvals = [0, 0]"
    by (simp add: jacobian_eigenvalues_def l(1))
next
  fix l x y :: complex
  assume a: "(x \<noteq> 0 \<or> y \<noteq> 0) \<and> 0 * x + 1 * y = l * x \<and> 0 * x + 0 * y = l * y"
  show "l = 0"
    using a by (cases "y = 0") auto
qed

theorem jacobian_eigenvalues_zero_witness:
  "eigvals_contract eigvals_2x2 [[0, 1], [0, 0]] \<and> jacobian_eigenvalues eigvals_2x2 = [0, 0] \<and>
   (1::complex) \<noteq> 0 \<and> (0::complex) * 1 + 1 * 0 = 0 * 1 \<and> (0::complex) * 1 + 0 * 0 = 0 * 0"
  using jacobian_eigenvalues_zero [of eigvals_2x2] eigvals_2x2_contract [of 0 1 0 0]
  by simp

end
